theory Spec2Isabelle
  imports Main "HOL-Library.Sublist"
begin

section \<open>Text primitives of the scheduling assistant\<close>

text \<open>
  The chat page works on JavaScript strings. A string is modelled as a list of code units
  below 256 (the Latin-1 block of Unicode), one \<^typ>\<open>char\<close> each; on that block the
  definitions below are what \<^verbatim>\<open>toLowerCase\<close>, \<^verbatim>\<open>trim\<close>,
  \<^verbatim>\<open>includes\<close>, \<^verbatim>\<open>\d\<close>, \<^verbatim>\<open>\w\<close> and \<^verbatim>\<open>\b\<close> compute.
\<close>

definition code :: "char \<Rightarrow> nat" where
  "code c = of_char c"

definition isDigit :: "char \<Rightarrow> bool" where
  "isDigit c = (48 \<le> code c \<and> code c \<le> 57)"

definition isWordChar :: "char \<Rightarrow> bool" where
  "isWordChar c =
     (isDigit c \<or> (65 \<le> code c \<and> code c \<le> 90) \<or> (97 \<le> code c \<and> code c \<le> 122) \<or> code c = 95)"

definition isWhiteSpace :: "char \<Rightarrow> bool" where
  "isWhiteSpace c = (code c \<in> {9, 10, 11, 12, 13, 32, 160})"

definition toLowerChar :: "char \<Rightarrow> char" where
  "toLowerChar c =
     (if (65 \<le> code c \<and> code c \<le> 90) \<or> (192 \<le> code c \<and> code c \<le> 222 \<and> code c \<noteq> 215)
      then char_of (code c + 32) else c)"

definition toLowerCase :: "string \<Rightarrow> string" where
  "toLowerCase s = map toLowerChar s"

definition trim :: "string \<Rightarrow> string" where
  "trim s = rev (dropWhile isWhiteSpace (rev (dropWhile isWhiteSpace s)))"

fun includes_str :: "string \<Rightarrow> string \<Rightarrow> bool" where
  "includes_str [] p = (p = [])"
| "includes_str (c # cs) p = (prefix p (c # cs) \<or> includes_str cs p)"

section \<open>Regular expressions of the page\<close>

text \<open>
  \<^verbatim>\<open>\b\<close>: the position between a previous character (word or not; the start of the text
  counts as not) and the rest of the text is a boundary when exactly one side is a word
  character.
\<close>

definition wordBoundary :: "bool \<Rightarrow> string \<Rightarrow> bool" where
  "wordBoundary prevWord rest =
     (prevWord \<noteq> (case rest of [] \<Rightarrow> False | c # _ \<Rightarrow> isWordChar c))"

text \<open>\<^verbatim>\<open>\d{4}-\d{2}-\d{2}\b\<close> at the head of a text.\<close>

definition isoDateAt :: "string \<Rightarrow> bool" where
  "isoDateAt s =
     (10 \<le> length s \<and> list_all isDigit (take 4 s) \<and> s ! 4 = CHR ''-'' \<and>
      list_all isDigit (take 2 (drop 5 s)) \<and> s ! 7 = CHR ''-'' \<and>
      list_all isDigit (take 2 (drop 8 s)) \<and> wordBoundary True (drop 10 s))"

text \<open>
  \<^verbatim>\<open>input.match(/\b\d{4}-\d{2}-\d{2}\b/)\<close>: the leftmost match, scanning with the
  wordness of the previous character.
\<close>

fun isoDateMatch :: "bool \<Rightarrow> string \<Rightarrow> string option" where
  "isoDateMatch prevWord [] = None"
| "isoDateMatch prevWord (c # cs) =
     (if wordBoundary prevWord (c # cs) \<and> isoDateAt (c # cs) then Some (take 10 (c # cs))
      else isoDateMatch (isWordChar c) cs)"

text \<open>\<^verbatim>\<open>:[0-5]\d\b\<close> at the head of a text.\<close>

definition timeTailAt :: "string \<Rightarrow> bool" where
  "timeTailAt t =
     (3 \<le> length t \<and> t ! 0 = CHR '':'' \<and> 48 \<le> code (t ! 1) \<and> code (t ! 1) \<le> 53 \<and>
      isDigit (t ! 2) \<and> wordBoundary True (drop 3 t))"

text \<open>
  \<^verbatim>\<open>([01]?\d|2[0-3]):[0-5]\d\b\<close> at the head of a text, the alternatives in the order
  the backtracking matcher tries them: \<^verbatim>\<open>[01]\d\<close>, then \<^verbatim>\<open>\d\<close> alone, then
  \<^verbatim>\<open>2[0-3]\<close>. The result is the matched text.
\<close>

definition timeAt :: "string \<Rightarrow> string option" where
  "timeAt s =
     (case s of
        [] \<Rightarrow> None
      | a # r \<Rightarrow>
          if (a = CHR ''0'' \<or> a = CHR ''1'') \<and> r \<noteq> [] \<and> isDigit (hd r) \<and> timeTailAt (tl r)
          then Some (take 5 s)
          else if isDigit a \<and> timeTailAt r then Some (take 4 s)
          else if a = CHR ''2'' \<and> r \<noteq> [] \<and> 48 \<le> code (hd r) \<and> code (hd r) \<le> 51 \<and> timeTailAt (tl r)
          then Some (take 5 s)
          else None)"

fun timeMatch :: "bool \<Rightarrow> string \<Rightarrow> string option" where
  "timeMatch prevWord [] = None"
| "timeMatch prevWord (c # cs) =
     (case (if wordBoundary prevWord (c # cs) then timeAt (c # cs) else None) of
        Some m \<Rightarrow> Some m
      | None \<Rightarrow> timeMatch (isWordChar c) cs)"

definition padStart5 :: "string \<Rightarrow> string" where
  "padStart5 s = replicate (5 - length s) CHR ''0'' @ s"

text \<open>\<^verbatim>\<open>/^\d+$/\<close> on a whole text.\<close>

definition numericMatch :: "string \<Rightarrow> string option" where
  "numericMatch s = (if s \<noteq> [] \<and> list_all isDigit s then Some s else None)"

text \<open>
  \<^verbatim>\<open>Number\<close> of a text of decimal digits, as a natural number. The source computes it in
  double precision, which is exact below \<open>2^53\<close> and monotone above; its only use is
  a comparison with an array length, which is below \<open>2^32\<close>, so the exact value decides
  the comparison the same way.
\<close>

definition digitValue :: "char \<Rightarrow> nat" where
  "digitValue c = code c - 48"

definition Number :: "string \<Rightarrow> nat" where
  "Number ds = foldl (\<lambda>acc c. 10 * acc + digitValue c) 0 ds"

section \<open>Data model\<close>

datatype AppointmentTypeKey = Consultation | Followup | Physical | Specialist

record AppointmentTypeConfig =
  key :: AppointmentTypeKey
  label :: string
  durationMinutes :: nat

record AvailabilitySlot =
  start_time :: string
  end_time :: string
  available :: bool

datatype Intent = Book | Reschedule | Cancel

datatype ConversationStep =
    idle
  | askIntent
  | askType
  | askDate
  | fetchingSlots
  | selectSlot
  | askName
  | askEmail
  | askPhone
  | askReason
  | confirmingBooking
  | bookingComplete
  | askBookingIdForReschedule
  | askNewDateForReschedule
  | askNewTimeForReschedule
  | rescheduling
  | rescheduleComplete
  | askBookingIdForCancel
  | askReasonForCancel
  | cancelling
  | cancelComplete

definition APPOINTMENT_TYPES :: "AppointmentTypeConfig list" where
  "APPOINTMENT_TYPES =
     [\<lparr>key = Consultation, label = ''General Consultation'', durationMinutes = 30\<rparr>,
      \<lparr>key = Followup, label = ''Follow-up'', durationMinutes = 15\<rparr>,
      \<lparr>key = Physical, label = ''Physical Exam'', durationMinutes = 45\<rparr>,
      \<lparr>key = Specialist, label = ''Specialist Consultation'', durationMinutes = 60\<rparr>]"

section \<open>Intent detection and slot extractors\<close>

definition detectIntent :: "string \<Rightarrow> Intent" where
  "detectIntent input =
     (let text = toLowerCase input in
      if includes_str text ''reschedul'' then Reschedule
      else if includes_str text ''cancel'' then Cancel
      else Book)"

definition findType :: "AppointmentTypeKey \<Rightarrow> AppointmentTypeConfig option" where
  "findType k = find (\<lambda>t. key t = k) APPOINTMENT_TYPES"

definition detectAppointmentType :: "string \<Rightarrow> AppointmentTypeConfig option" where
  "detectAppointmentType input =
     (let text = toLowerCase input in
      if includes_str text ''follow'' \<or> includes_str text ''follow-up'' then findType Followup
      else if includes_str text ''physical'' then findType Physical
      else if includes_str text ''specialist'' then findType Specialist
      else if includes_str text ''consult'' \<or> includes_str text ''general'' \<or>
              includes_str text ''checkup'' \<or> includes_str text ''check-up''
      then findType Consultation
      else None)"

text \<open>
  The current date is read from the system clock; its two renderings
  \<^verbatim>\<open>toISOString().slice(0, 10)\<close> for today and for the next day are taken from the
  environment.
\<close>

record Clock =
  todayISO :: string
  tomorrowISO :: string

definition normalizeDateFromInput :: "'a Clock_scheme \<Rightarrow> string \<Rightarrow> string option" where
  "normalizeDateFromInput clock input =
     (case isoDateMatch False input of
        Some isoMatch \<Rightarrow> Some isoMatch
      | None \<Rightarrow>
          (let text = toLowerCase input in
           if includes_str text ''today'' then Some (todayISO clock)
           else if includes_str text ''tomorrow'' then Some (tomorrowISO clock)
           else None))"

text \<open>The numeric branch of \<^verbatim>\<open>parseSlotSelection\<close>: a 1-based index into the list.\<close>

definition slotByIndex :: "string \<Rightarrow> AvailabilitySlot list \<Rightarrow> AvailabilitySlot option" where
  "slotByIndex input offered =
     (case numericMatch (trim input) of
        None \<Rightarrow> None
      | Some ds \<Rightarrow>
          (let index = int (Number ds) - 1 in
           if 0 \<le> index \<and> index < int (length offered) then Some (offered ! nat index) else None))"

text \<open>The time branch: the first available slot starting at the time literal.\<close>

definition slotByTime :: "string \<Rightarrow> AvailabilitySlot list \<Rightarrow> AvailabilitySlot option" where
  "slotByTime input offered =
     (case timeMatch False input of
        None \<Rightarrow> None
      | Some m \<Rightarrow> find (\<lambda>slot. start_time slot = padStart5 m \<and> available slot) offered)"

definition parseSlotSelection :: "string \<Rightarrow> AvailabilitySlot list \<Rightarrow> AvailabilitySlot option" where
  "parseSlotSelection input offered =
     (if offered = [] then None
      else case slotByIndex input offered of
             Some slot \<Rightarrow> Some slot
           | None \<Rightarrow> slotByTime input offered)"

section \<open>Conversation state\<close>

record ConversationState =
  intent :: "Intent option"
  step :: ConversationStep
  appointmentType :: "AppointmentTypeConfig option"
  date :: "string option"
  slots :: "AvailabilitySlot list"
  selectedSlot :: "AvailabilitySlot option"
  patientName :: "string option"
  patientEmail :: "string option"
  patientPhone :: "string option"
  reason :: "string option"
  bookingId :: "string option"

definition createInitialState :: ConversationState where
  "createInitialState =
     \<lparr>intent = None, step = askIntent, appointmentType = None, date = None, slots = [],
      selectedSlot = None, patientName = None, patientEmail = None, patientPhone = None,
      reason = None, bookingId = None\<rparr>"

text \<open>
  A field of type \<^verbatim>\<open>string | null\<close> in a condition: \<^verbatim>\<open>null\<close> and the empty
  string are both falsy.
\<close>

definition truthy :: "string option \<Rightarrow> bool" where
  "truthy v = (case v of None \<Rightarrow> False | Some s \<Rightarrow> s \<noteq> [])"

section \<open>The remote scheduling service and the agent's replies\<close>

text \<open>
  One user turn makes at most one remote call. The environment of a turn holds the clock
  and the answer of each of the four remote operations, \<open>None\<close> when the call throws
  (a response that is not ok, or a transport failure).
\<close>

record Env = Clock +
  availabilityResponse :: "AvailabilitySlot list option"
  bookResponse :: "(string \<times> string) option"
  rescheduleResponse :: "(string \<times> string) option"
  cancelResponse :: "string option"

datatype RemoteCall =
    FetchAvailability string AppointmentTypeConfig
  | BookAppointment AppointmentTypeConfig string AvailabilitySlot string string string "string option"
  | RescheduleAppointment string string string
  | CancelAppointment string "string option"

text \<open>One constructor for each \<^verbatim>\<open>appendAgentMessage\<close> of the page, with the values it prints.\<close>

datatype AgentMessage =
    SayAskDate AppointmentTypeConfig
  | SayAskType
  | SayDateNotUnderstood
  | SayMissingType
  | SayNoSlots
  | SaySlotOptions string "AvailabilitySlot list"
  | SayAvailabilityFailed
  | SaySlotNotMatched
  | SayHoldSlot AvailabilitySlot "string option"
  | SayAskEmail
  | SayAskPhone
  | SayAskReason
  | SayBookingMissingInfo
  | SayBookingConfirmed string string
  | SayBookingFailed
  | SayAskRescheduleIdAgain
  | SayAskNewDate
  | SayAskNewTime
  | SayTimeNotUnderstood
  | SayRescheduleMissingInfo
  | SayRescheduled string string "string option" string
  | SayRescheduleFailed
  | SayAskCancelIdAgain
  | SayAskCancelReason
  | SayCancelMissingId
  | SayCancelled string
  | SayCancelFailed
  | SayAskRescheduleId
  | SayAskCancelId

text \<open>
  What a handler did in one turn: the argument of its last \<^verbatim>\<open>setState\<close> (\<open>None\<close> when
  it called none, so the state stays), the agent messages it appended and the remote calls
  it made, in order.
\<close>

record Outcome =
  written :: "ConversationState option"
  said :: "AgentMessage list"
  called :: "RemoteCall list"

definition reply :: "ConversationState option \<Rightarrow> AgentMessage list \<Rightarrow> Outcome" where
  "reply w ms = \<lparr>written = w, said = ms, called = []\<rparr>"

section \<open>Booking flow\<close>

text \<open>The date step of \<^verbatim>\<open>handleBookingFlow\<close>, with the availability query.\<close>

definition bookingDateStep :: "Env \<Rightarrow> ConversationState \<Rightarrow> string \<Rightarrow> Outcome" where
  "bookingDateStep env currentState userText =
     (let parsed = normalizeDateFromInput env userText in
      if \<not> truthy parsed then reply None [SayDateNotUnderstood]
      else
        (let d = the parsed;
             fetching = currentState\<lparr>date := Some d, step := fetchingSlots\<rparr>
         in case appointmentType fetching of
              None \<Rightarrow> reply (Some (fetching\<lparr>step := askType\<rparr>)) [SayMissingType]
            | Some ty \<Rightarrow>
                (case availabilityResponse env of
                   None \<Rightarrow>
                     \<lparr>written = Some (fetching\<lparr>step := askDate\<rparr>),
                      said = [SayAvailabilityFailed],
                      called = [FetchAvailability d ty]\<rparr>
                 | Some fetched \<Rightarrow>
                     (let availableSlots = take 5 (filter available fetched) in
                      if availableSlots = [] then
                        \<lparr>written = Some (fetching\<lparr>slots := [], step := askDate\<rparr>),
                         said = [SayNoSlots],
                         called = [FetchAvailability d ty]\<rparr>
                      else
                        \<lparr>written = Some (fetching\<lparr>slots := availableSlots, step := selectSlot\<rparr>),
                         said = [SaySlotOptions d availableSlots],
                         called = [FetchAvailability d ty]\<rparr>))))"

text \<open>
  The confirm step: the reason is stored, the required fields are checked, and the book
  call is made. After the check the fields are known to be set, which is what
  \<open>the\<close> reads.
\<close>

definition bookingConfirmStep :: "Env \<Rightarrow> ConversationState \<Rightarrow> string \<Rightarrow> Outcome" where
  "bookingConfirmStep env currentState userText =
     (let confirming = currentState\<lparr>reason := Some (trim userText), step := confirmingBooking\<rparr> in
      if appointmentType confirming = None \<or> \<not> truthy (date confirming) \<or>
         selectedSlot confirming = None \<or> \<not> truthy (patientName confirming) \<or>
         \<not> truthy (patientEmail confirming) \<or> \<not> truthy (patientPhone confirming)
      then reply (Some createInitialState) [SayBookingMissingInfo]
      else
        (let request = BookAppointment (the (appointmentType confirming)) (the (date confirming))
               (the (selectedSlot confirming)) (the (patientName confirming))
               (the (patientEmail confirming)) (the (patientPhone confirming)) (reason confirming)
         in case bookResponse env of
              Some (booking_id, confirmation_code) \<Rightarrow>
                \<lparr>written = Some (confirming\<lparr>bookingId := Some booking_id, step := bookingComplete\<rparr>),
                 said = [SayBookingConfirmed booking_id confirmation_code],
                 called = [request]\<rparr>
            | None \<Rightarrow>
                \<lparr>written = Some (confirming\<lparr>step := askDate\<rparr>),
                 said = [SayBookingFailed],
                 called = [request]\<rparr>))"

definition handleBookingFlow :: "Env \<Rightarrow> ConversationState \<Rightarrow> string \<Rightarrow> Outcome" where
  "handleBookingFlow env state userText =
     (let currentState = (if intent state = None then state\<lparr>intent := Some Book\<rparr> else state) in
      if appointmentType currentState = None then
        (case detectAppointmentType userText of
           Some inferredType \<Rightarrow>
             reply (Some (currentState\<lparr>appointmentType := Some inferredType, step := askDate\<rparr>))
               [SayAskDate inferredType]
         | None \<Rightarrow> reply (Some (currentState\<lparr>step := askType\<rparr>)) [SayAskType])
      else if \<not> truthy (date currentState) then bookingDateStep env currentState userText
      else if selectedSlot currentState = None \<and> slots currentState \<noteq> [] then
        (case parseSlotSelection userText (slots currentState) of
           None \<Rightarrow> reply None [SaySlotNotMatched]
         | Some slot \<Rightarrow>
             reply (Some (currentState\<lparr>selectedSlot := Some slot, step := askName\<rparr>))
               [SayHoldSlot slot (date currentState)])
      else if \<not> truthy (patientName currentState) then
        reply (Some (currentState\<lparr>patientName := Some (trim userText), step := askEmail\<rparr>))
          [SayAskEmail]
      else if \<not> truthy (patientEmail currentState) then
        reply (Some (currentState\<lparr>patientEmail := Some (trim userText), step := askPhone\<rparr>))
          [SayAskPhone]
      else if \<not> truthy (patientPhone currentState) then
        reply (Some (currentState\<lparr>patientPhone := Some (trim userText), step := askReason\<rparr>))
          [SayAskReason]
      else if \<not> truthy (reason currentState) then bookingConfirmStep env currentState userText
      else reply None [])"

section \<open>Reschedule flow\<close>

definition handleRescheduleFlow :: "Env \<Rightarrow> ConversationState \<Rightarrow> string \<Rightarrow> Outcome" where
  "handleRescheduleFlow env state userText =
     (if \<not> truthy (bookingId state) \<and> step state = askBookingIdForReschedule then
        (let ident = trim userText in
         if ident = [] then reply None [SayAskRescheduleIdAgain]
         else reply (Some (state\<lparr>bookingId := Some ident, step := askNewDateForReschedule\<rparr>))
                [SayAskNewDate])
      else if \<not> truthy (date state) \<and> step state = askNewDateForReschedule then
        (let parsed = normalizeDateFromInput env userText in
         if \<not> truthy parsed then reply None [SayDateNotUnderstood]
         else reply (Some (state\<lparr>date := parsed, step := askNewTimeForReschedule\<rparr>)) [SayAskNewTime])
      else if truthy (date state) \<and> step state = askNewTimeForReschedule then
        (case timeMatch False userText of
           None \<Rightarrow> reply None [SayTimeNotUnderstood]
         | Some m \<Rightarrow>
             (let startTime = padStart5 m in
              if \<not> truthy (bookingId state) \<or> \<not> truthy (date state)
              then reply (Some createInitialState) [SayRescheduleMissingInfo]
              else
                (let request = RescheduleAppointment (the (bookingId state)) (the (date state)) startTime;
                     busy = state\<lparr>step := rescheduling\<rparr>
                 in case rescheduleResponse env of
                      Some (booking_id, previous_booking_id) \<Rightarrow>
                        \<lparr>written = Some (busy\<lparr>bookingId := Some booking_id, step := rescheduleComplete\<rparr>),
                         said = [SayRescheduled booking_id previous_booking_id (date busy) startTime],
                         called = [request]\<rparr>
                    | None \<Rightarrow>
                        \<lparr>written = Some createInitialState,
                         said = [SayRescheduleFailed],
                         called = [request]\<rparr>)))
      else reply None [])"

section \<open>Cancel flow\<close>

definition handleCancelFlow :: "Env \<Rightarrow> ConversationState \<Rightarrow> string \<Rightarrow> Outcome" where
  "handleCancelFlow env state userText =
     (if \<not> truthy (bookingId state) \<and> step state = askBookingIdForCancel then
        (let ident = trim userText in
         if ident = [] then reply None [SayAskCancelIdAgain]
         else reply (Some (state\<lparr>bookingId := Some ident, step := askReasonForCancel\<rparr>))
                [SayAskCancelReason])
      else if step state = askReasonForCancel then
        (let why = (if toLowerCase (trim userText) = ''skip'' then None else Some (trim userText));
             busy = state\<lparr>reason := why, step := cancelling\<rparr>
         in if \<not> truthy (bookingId busy) then reply (Some createInitialState) [SayCancelMissingId]
            else
              (let request = CancelAppointment (the (bookingId busy)) why
               in case cancelResponse env of
                    Some booking_id \<Rightarrow>
                      \<lparr>written = Some (busy\<lparr>bookingId := Some booking_id, step := cancelComplete\<rparr>),
                       said = [SayCancelled booking_id],
                       called = [request]\<rparr>
                  | None \<Rightarrow>
                      \<lparr>written = Some createInitialState,
                       said = [SayCancelFailed],
                       called = [request]\<rparr>))
      else reply None [])"

section \<open>Dispatch of a turn\<close>

text \<open>
  \<^verbatim>\<open>handleSubmit\<close>. The handlers read the state of the render that received the turn,
  also after the dispatcher's own \<^verbatim>\<open>setState(nextState)\<close>; the last \<^verbatim>\<open>setState\<close> of
  the turn is the state of the next render.
\<close>

definition handleSubmit :: "Env \<Rightarrow> ConversationState \<Rightarrow> string \<Rightarrow> Outcome" where
  "handleSubmit env state input =
     (let trimmed = trim input in
      if trimmed = [] then reply None []
      else if step state = idle \<or> step state = askIntent then
        (let detected = detectIntent trimmed;
             nextState = createInitialState\<lparr>intent := Some detected\<rparr>
         in case detected of
              Book \<Rightarrow>
                (let flow = handleBookingFlow env state trimmed in
                 flow\<lparr>written := Some (case written flow of None \<Rightarrow> nextState | Some s \<Rightarrow> s)\<rparr>)
            | Reschedule \<Rightarrow>
                reply (Some (nextState\<lparr>step := askBookingIdForReschedule\<rparr>)) [SayAskRescheduleId]
            | Cancel \<Rightarrow>
                reply (Some (nextState\<lparr>step := askBookingIdForCancel\<rparr>)) [SayAskCancelId])
      else if intent state = Some Book \<or> step state = askType \<or> step state = askDate then
        handleBookingFlow env state trimmed
      else if intent state = Some Reschedule \<or> step state = askBookingIdForReschedule \<or>
              step state = askNewDateForReschedule \<or> step state = askNewTimeForReschedule then
        handleRescheduleFlow env state trimmed
      else if intent state = Some Cancel \<or> step state = askBookingIdForCancel \<or>
              step state = askReasonForCancel then
        handleCancelFlow env state trimmed
      else handleBookingFlow env state trimmed)"

text \<open>The state of the next render after a turn, and a conversation of several turns.\<close>

definition turn :: "Env \<Rightarrow> ConversationState \<Rightarrow> string \<Rightarrow> ConversationState" where
  "turn env state input =
     (case written (handleSubmit env state input) of None \<Rightarrow> state | Some s \<Rightarrow> s)"

fun run :: "ConversationState \<Rightarrow> (Env \<times> string) list \<Rightarrow> ConversationState" where
  "run state [] = state"
| "run state ((env, input) # rest) = run (turn env state input) rest"

inductive reachable :: "ConversationState \<Rightarrow> bool" where
  start: "reachable createInitialState"
| after_turn: "reachable state \<Longrightarrow> reachable (turn env state input)"

section \<open>Notions used to state the properties\<close>

text \<open>
  \<open>letterOf p c\<close>: the character \<open>c\<close> is \<open>p\<close>, or \<open>p\<close> is a small ASCII letter and
  \<open>c\<close> its capital. \<open>mentions input token\<close>: some stretch of the input spells the token,
  in any letter case.
\<close>

definition letterOf :: "char \<Rightarrow> char \<Rightarrow> bool" where
  "letterOf p c = (c = p \<or> (97 \<le> code p \<and> code p \<le> 122 \<and> code c + 32 = code p))"

definition spells :: "string \<Rightarrow> string \<Rightarrow> bool" where
  "spells token s = list_all2 letterOf token s"

definition mentions :: "string \<Rightarrow> string \<Rightarrow> bool" where
  "mentions input token = (\<exists>pre mid post. input = pre @ mid @ post \<and> spells token mid)"

text \<open>A token of the page's keyword tables: small ASCII letters and punctuation below them.\<close>

definition plainToken :: "string \<Rightarrow> bool" where
  "plainToken token = list_all (\<lambda>p. code p < 65 \<or> (90 < code p \<and> code p < 192)) token"

text \<open>The decimal numeral of a natural number, as \<^verbatim>\<open>String(n)\<close> prints it.\<close>

definition digitChar :: "nat \<Rightarrow> char" where
  "digitChar d = char_of (48 + d)"

fun decimal :: "nat \<Rightarrow> string" where
  "decimal n = (if n < 10 then [digitChar n] else decimal (n div 10) @ [digitChar (n mod 10)])"

declare decimal.simps [simp del]

text \<open>
  The invariant of the selected slot: a selection is an element of the stored slot list,
  and it exists only once the date and the appointment type are set, the fields whose
  absence would make the booking flow fetch a new list.
\<close>

definition slotInv :: "ConversationState \<Rightarrow> bool" where
  "slotInv state =
     (case selectedSlot state of
        None \<Rightarrow> True
      | Some slot \<Rightarrow>
          slot \<in> set (slots state) \<and> truthy (date state) \<and> appointmentType state \<noteq> None)"

section \<open>Example data\<close>

definition slotNine :: AvailabilitySlot where
  "slotNine = \<lparr>start_time = ''09:00'', end_time = ''09:45'', available = True\<rparr>"

definition slotTen :: AvailabilitySlot where
  "slotTen = \<lparr>start_time = ''10:00'', end_time = ''10:45'', available = False\<rparr>"

text \<open>A service that answers every call, one that has no free slot, and one that fails.\<close>

definition serviceUp :: Env where
  "serviceUp =
     \<lparr>todayISO = ''2026-11-02'', tomorrowISO = ''2026-11-03'',
      availabilityResponse = Some [slotNine, slotTen],
      bookResponse = Some (''APPT-20261103-0900'', ''CONF-7Q2''),
      rescheduleResponse = Some (''APPT-20261104-1030'', ''APPT-20261103-0900''),
      cancelResponse = Some ''APPT-20261103-0900''\<rparr>"

definition serviceFull :: Env where
  "serviceFull = serviceUp\<lparr>availabilityResponse := Some [slotTen]\<rparr>"

definition serviceDown :: Env where
  "serviceDown =
     serviceUp\<lparr>availabilityResponse := None, bookResponse := None,
       rescheduleResponse := None, cancelResponse := None\<rparr>"

text \<open>
  A booking conversation up to the question for the reason of the visit, and the same
  conversation when the chosen date has no free slot.
\<close>

definition physicalExam :: AppointmentTypeConfig where
  "physicalExam = \<lparr>key = Physical, label = ''Physical Exam'', durationMinutes = 45\<rparr>"

definition untilReason :: "(Env \<times> string) list" where
  "untilReason =
     [(serviceUp, ''book a physical exam''), (serviceUp, ''tomorrow''), (serviceUp, ''1''),
      (serviceUp, ''Jane Doe''), (serviceUp, ''jane@example.com''), (serviceUp, ''555-0100'')]"

definition awaitingReason :: ConversationState where
  "awaitingReason =
     \<lparr>intent = Some Book, step = askReason, appointmentType = Some physicalExam,
      date = Some ''2026-11-03'', slots = [slotNine], selectedSlot = Some slotNine,
      patientName = Some ''Jane Doe'', patientEmail = Some ''jane@example.com'',
      patientPhone = Some ''555-0100'', reason = None, bookingId = None\<rparr>"

definition untilReasonNoSlot :: "(Env \<times> string) list" where
  "untilReasonNoSlot =
     [(serviceUp, ''book a physical exam''), (serviceFull, ''tomorrow''),
      (serviceUp, ''Jane Doe''), (serviceUp, ''jane@example.com''), (serviceUp, ''555-0100'')]"

definition awaitingReasonNoSlot :: ConversationState where
  "awaitingReasonNoSlot =
     \<lparr>intent = Some Book, step = askReason, appointmentType = Some physicalExam,
      date = Some ''2026-11-03'', slots = [], selectedSlot = None,
      patientName = Some ''Jane Doe'', patientEmail = Some ''jane@example.com'',
      patientPhone = Some ''555-0100'', reason = None, bookingId = None\<rparr>"

text \<open>Reschedule and cancel conversations up to their last question.\<close>

definition untilNewTime :: "(Env \<times> string) list" where
  "untilNewTime =
     [(serviceUp, ''I need to reschedule''), (serviceUp, ''APPT-20261103-0900''),
      (serviceUp, ''tomorrow'')]"

definition untilCancelReason :: "(Env \<times> string) list" where
  "untilCancelReason =
     [(serviceUp, ''cancel my appointment''), (serviceUp, ''APPT-20261103-0900'')]"

section \<open>Characters and keyword search\<close>

lemma code_lt_256: "code c < 256"
  by (simp add: code_def)

lemma code_inj: "code c = code d \<longleftrightarrow> c = d"
  by (simp add: code_def)

lemma code_toLowerChar:
  "code (toLowerChar c) =
     (if (65 \<le> code c \<and> code c \<le> 90) \<or> (192 \<le> code c \<and> code c \<le> 222 \<and> code c \<noteq> 215)
      then code c + 32 else code c)"
  by (auto simp: toLowerChar_def code_def)

lemma toLowerChar_eq_iff:
  assumes "code p < 65 \<or> (90 < code p \<and> code p < 192)"
  shows "toLowerChar c = p \<longleftrightarrow> letterOf p c"
proof -
  have "toLowerChar c = p \<longleftrightarrow> code (toLowerChar c) = code p"
    by (simp add: code_inj)
  also have "\<dots> \<longleftrightarrow> letterOf p c"
    using assms code_lt_256 [of c]
    unfolding code_toLowerChar letterOf_def code_inj [symmetric, of c p]
    by (auto split: if_splits)
  finally show ?thesis .
qed

lemma toLowerCase_eq_iff:
  "plainToken token \<Longrightarrow> toLowerCase s = token \<longleftrightarrow> spells token s"
proof (induction token arbitrary: s)
  case Nil
  then show ?case by (simp add: toLowerCase_def spells_def)
next
  case (Cons p ps)
  then have p: "code p < 65 \<or> (90 < code p \<and> code p < 192)" and ps: "plainToken ps"
    by (simp_all add: plainToken_def)
  show ?case
  proof (cases s)
    case Nil
    then show ?thesis by (simp add: toLowerCase_def spells_def)
  next
    case (Cons c cs)
    with Cons.IH [OF ps, of cs] toLowerChar_eq_iff [OF p, of c] show ?thesis
      by (simp add: toLowerCase_def spells_def)
  qed
qed

lemma includes_str_iff: "includes_str t p \<longleftrightarrow> (\<exists>ps ss. t = ps @ p @ ss)"
proof (induction t)
  case Nil
  then show ?case by auto
next
  case (Cons c cs)
  show ?case
  proof
    assume "includes_str (c # cs) p"
    then consider "prefix p (c # cs)" | "includes_str cs p" by auto
    then show "\<exists>ps ss. c # cs = ps @ p @ ss"
    proof cases
      case 1
      then obtain ss where "c # cs = p @ ss" by (auto simp: prefix_def)
      then have "c # cs = [] @ p @ ss" by simp
      then show ?thesis by blast
    next
      case 2
      with Cons.IH obtain ps ss where "cs = ps @ p @ ss" by blast
      then have "c # cs = (c # ps) @ p @ ss" by simp
      then show ?thesis by blast
    qed
  next
    assume "\<exists>ps ss. c # cs = ps @ p @ ss"
    then obtain ps ss where eq: "c # cs = ps @ p @ ss" by blast
    show "includes_str (c # cs) p"
    proof (cases ps)
      case Nil
      with eq have "prefix p (c # cs)" by (simp add: prefix_def)
      then show ?thesis by simp
    next
      case (Cons a as)
      with eq have "cs = as @ p @ ss" by simp
      with Cons.IH have "includes_str cs p" by blast
      then show ?thesis by simp
    qed
  qed
qed

lemma includes_lower_iff_mentions:
  assumes "plainToken token"
  shows "includes_str (toLowerCase input) token \<longleftrightarrow> mentions input token"
proof
  assume "includes_str (toLowerCase input) token"
  then obtain ps ss where "map toLowerChar input = ps @ token @ ss"
    by (auto simp: includes_str_iff toLowerCase_def)
  then obtain pre rest where input: "input = pre @ rest"
    and "token @ ss = map toLowerChar rest"
    unfolding map_eq_append_conv by blast
  then obtain mid post where rest: "rest = mid @ post" and "token = map toLowerChar mid"
    unfolding append_eq_map_conv by blast
  then have "spells token mid"
    using toLowerCase_eq_iff [OF assms, of mid] by (simp add: toLowerCase_def)
  with input rest show "mentions input token"
    unfolding mentions_def by blast
next
  assume "mentions input token"
  then obtain pre mid post where input: "input = pre @ mid @ post" and "spells token mid"
    unfolding mentions_def by blast
  then have "toLowerCase mid = token"
    using toLowerCase_eq_iff [OF assms, of mid] by simp
  with input have "toLowerCase input = toLowerCase pre @ token @ toLowerCase post"
    by (simp add: toLowerCase_def)
  then show "includes_str (toLowerCase input) token"
    unfolding includes_str_iff by blast
qed

lemma plainToken_intents: "plainToken ''reschedul''" "plainToken ''cancel''"
  by (simp_all add: plainToken_def code_def)

section \<open>Intent detection\<close>

text \<open>
  C8. The intent classifier is a total function of the text alone: a text that mentions
  \<open>reschedul\<close> in any letter case is classified Reschedule whatever surrounds the token;
  a text that mentions \<open>cancel\<close> but not \<open>reschedul\<close> is classified Cancel; every
  other text is classified Book. There is no fourth result.
\<close>

theorem detectIntent_by_token:
  "detectIntent input =
     (if mentions input ''reschedul'' then Reschedule
      else if mentions input ''cancel'' then Cancel
      else Book)"
  by (simp add: detectIntent_def Let_def includes_lower_iff_mentions plainToken_intents)

theorem detectIntent_by_token_witness:
  "mentions ''Please RESCHEDULE or cancel it'' ''reschedul'' \<and>
   detectIntent ''Please RESCHEDULE or cancel it'' = Reschedule"
proof -
  have "''Please RESCHEDULE or cancel it'' = ''Please '' @ ''RESCHEDUL'' @ ''E or cancel it''"
    by simp
  moreover have "spells ''reschedul'' ''RESCHEDUL''"
    by (simp add: spells_def letterOf_def code_def)
  ultimately have m: "mentions ''Please RESCHEDULE or cancel it'' ''reschedul''"
    unfolding mentions_def by blast
  with detectIntent_by_token [of "''Please RESCHEDULE or cancel it''"] show ?thesis
    by simp
qed

section \<open>Appointment type detection\<close>

lemma includes_str_part:
  "includes_str t (p @ q) \<Longrightarrow> includes_str t p"
proof -
  assume "includes_str t (p @ q)"
  then obtain ps ss where "t = ps @ (p @ q) @ ss"
    unfolding includes_str_iff by blast
  then have "t = ps @ p @ (q @ ss)" by simp
  then show ?thesis unfolding includes_str_iff by blast
qed

lemma follow_up_is_follow: "includes_str t ''follow-up'' \<Longrightarrow> includes_str t ''follow''"
  using includes_str_part [of t "''follow''" "''-up''"] by simp

lemma plainToken_types:
  "plainToken ''follow''" "plainToken ''physical''" "plainToken ''specialist''"
  "plainToken ''consult''" "plainToken ''general''" "plainToken ''checkup''"
  "plainToken ''check-up''"
  by (simp_all add: plainToken_def code_def)

lemma findType_key: "map_option key (findType k) = Some k"
  by (cases k) (simp_all add: findType_def APPOINTMENT_TYPES_def)

lemma detectAppointmentType_key:
  "map_option key (detectAppointmentType input) =
     (if mentions input ''follow'' then Some Followup
      else if mentions input ''physical'' then Some Physical
      else if mentions input ''specialist'' then Some Specialist
      else if mentions input ''consult'' \<or> mentions input ''general'' \<or>
              mentions input ''checkup'' \<or> mentions input ''check-up''
      then Some Consultation
      else None)"
proof -
  have fu: "includes_str (toLowerCase input) ''follow'' \<or> includes_str (toLowerCase input) ''follow-up''
      \<longleftrightarrow> mentions input ''follow''"
    using follow_up_is_follow [of "toLowerCase input"]
    by (auto simp: includes_lower_iff_mentions plainToken_types)
  show ?thesis
    unfolding detectAppointmentType_def Let_def fu
    by (simp add: includes_lower_iff_mentions plainToken_types findType_key)
qed

text \<open>
  C10 (as amended). The appointment-type extractor resolves synonym matches by a fixed
  priority order, follow-up before physical before specialist before consultation: the
  result is the first type in that order with a synonym in the text, and absent when no
  synonym occurs. In particular a text containing both \<open>specialist\<close> and \<open>consult\<close>
  and no synonym of follow-up or physical yields the specialist type, and no text
  containing \<open>specialist\<close> ever yields consultation.
\<close>

theorem detectAppointmentType_priority:
  "map_option key (detectAppointmentType input) =
     (if mentions input ''follow'' then Some Followup
      else if mentions input ''physical'' then Some Physical
      else if mentions input ''specialist'' then Some Specialist
      else if mentions input ''consult'' \<or> mentions input ''general'' \<or>
              mentions input ''checkup'' \<or> mentions input ''check-up''
      then Some Consultation
      else None) \<and>
   (mentions input ''specialist'' \<and> mentions input ''consult'' \<and>
    \<not> mentions input ''follow'' \<and> \<not> mentions input ''physical'' \<longrightarrow>
      map_option key (detectAppointmentType input) = Some Specialist) \<and>
   (mentions input ''specialist'' \<longrightarrow>
      map_option key (detectAppointmentType input) \<noteq> Some Consultation)"
  unfolding detectAppointmentType_key by simp

lemma mentions_eval:
  "plainToken token \<Longrightarrow> mentions input token = includes_str (toLowerCase input) token"
  by (simp add: includes_lower_iff_mentions)

theorem detectAppointmentType_priority_witness:
  "mentions ''Specialist Consultation'' ''specialist'' \<and>
   mentions ''Specialist Consultation'' ''consult'' \<and>
   \<not> mentions ''Specialist Consultation'' ''follow'' \<and>
   \<not> mentions ''Specialist Consultation'' ''physical'' \<and>
   map_option key (detectAppointmentType ''Specialist Consultation'') = Some Specialist \<and>
   map_option key (detectAppointmentType ''Specialist Consultation'') \<noteq> Some Consultation"
proof -
  have 1: "includes_str (toLowerCase ''Specialist Consultation'') ''specialist''" by code_simp
  have 2: "includes_str (toLowerCase ''Specialist Consultation'') ''consult''" by code_simp
  have 3: "\<not> includes_str (toLowerCase ''Specialist Consultation'') ''follow''" by code_simp
  have 4: "\<not> includes_str (toLowerCase ''Specialist Consultation'') ''physical''" by code_simp
  from 1 2 3 4 have m: "mentions ''Specialist Consultation'' ''specialist''"
    "mentions ''Specialist Consultation'' ''consult''"
    "\<not> mentions ''Specialist Consultation'' ''follow''"
    "\<not> mentions ''Specialist Consultation'' ''physical''"
    by (simp_all add: mentions_eval plainToken_types)
  from detectAppointmentType_priority [of "''Specialist Consultation''"] m
  have "map_option key (detectAppointmentType ''Specialist Consultation'') = Some Specialist"
    and "map_option key (detectAppointmentType ''Specialist Consultation'') \<noteq> Some Consultation"
    by blast+
  with m show ?thesis by (intro conjI)
qed

text \<open>
  A text with \<open>specialist\<close> and \<open>consult\<close> that also has a follow-up synonym is a
  follow-up, not a specialist appointment.
\<close>

theorem specialist_and_consult_counterexample:
  "mentions ''follow-up with a specialist consult'' ''specialist'' \<and>
   mentions ''follow-up with a specialist consult'' ''consult'' \<and>
   map_option key (detectAppointmentType ''follow-up with a specialist consult'') = Some Followup \<and>
   map_option key (detectAppointmentType ''follow-up with a specialist consult'') \<noteq> Some Specialist"
proof -
  have 1: "includes_str (toLowerCase ''follow-up with a specialist consult'') ''specialist''"
    by code_simp
  have 2: "includes_str (toLowerCase ''follow-up with a specialist consult'') ''consult''"
    by code_simp
  have 3: "map_option key (detectAppointmentType ''follow-up with a specialist consult'') = Some Followup"
    by code_simp
  from 3 have 4: "map_option key (detectAppointmentType ''follow-up with a specialist consult'') \<noteq> Some Specialist"
    by auto
  from 1 2 have "mentions ''follow-up with a specialist consult'' ''specialist''"
    "mentions ''follow-up with a specialist consult'' ''consult''"
    by (simp_all add: mentions_eval plainToken_types)
  with 3 4 show ?thesis by blast
qed

section \<open>Slot selection\<close>

lemma isDigit_digitChar: "d < 10 \<Longrightarrow> isDigit (digitChar d)"
  by (simp add: isDigit_def digitChar_def code_def)

lemma digitValue_digitChar: "d < 10 \<Longrightarrow> digitValue (digitChar d) = d"
  by (simp add: digitValue_def digitChar_def code_def)

lemma decimal_digits: "list_all isDigit (decimal n)"
proof (induction n rule: decimal.induct)
  case (1 n)
  show ?case
  proof (cases "n < 10")
    case True
    then show ?thesis by (subst decimal.simps) (simp add: isDigit_digitChar)
  next
    case False
    with "1.IH" show ?thesis
      by (subst decimal.simps) (simp add: isDigit_digitChar)
  qed
qed

lemma decimal_not_empty: "decimal n \<noteq> []"
  by (subst decimal.simps) simp

lemma Number_snoc: "Number (ds @ [c]) = 10 * Number ds + digitValue c"
  by (simp add: Number_def)

lemma Number_decimal: "Number (decimal n) = n"
proof (induction n rule: decimal.induct)
  case (1 n)
  show ?case
  proof (cases "n < 10")
    case True
    then show ?thesis by (subst decimal.simps) (simp add: Number_def digitValue_digitChar)
  next
    case False
    with "1.IH" have "Number (decimal (n div 10)) = n div 10" by simp
    with False show ?thesis
      by (subst decimal.simps) (simp add: Number_snoc digitValue_digitChar)
  qed
qed

lemma digit_not_space: "isDigit c \<Longrightarrow> \<not> isWhiteSpace c"
  by (auto simp: isDigit_def isWhiteSpace_def)

lemma dropWhile_digits: "list_all isDigit s \<Longrightarrow> dropWhile isWhiteSpace s = s"
  by (cases s) (simp_all add: digit_not_space)

lemma trim_digits: "list_all isDigit s \<Longrightarrow> trim s = s"
proof -
  assume d: "list_all isDigit s"
  then have "list_all isDigit (rev s)" by (simp add: list_all_iff)
  with d show ?thesis by (simp add: trim_def dropWhile_digits)
qed

lemma set_trim: "set s \<subseteq> {c. isWhiteSpace c} \<union> set (trim s)"
proof -
  have a: "set xs \<subseteq> {c. isWhiteSpace c} \<union> set (dropWhile isWhiteSpace xs)" for xs
    by (induction xs) auto
  have "set s \<subseteq> {c. isWhiteSpace c} \<union> set (dropWhile isWhiteSpace s)" by (rule a)
  also have "set (dropWhile isWhiteSpace s) = set (rev (dropWhile isWhiteSpace s))" by simp
  also have "\<dots> \<subseteq> {c. isWhiteSpace c} \<union> set (dropWhile isWhiteSpace (rev (dropWhile isWhiteSpace s)))"
    by (rule a)
  finally show ?thesis by (auto simp: trim_def)
qed

lemma timeTailAt_colon: "timeTailAt t \<Longrightarrow> CHR '':'' \<in> set t"
  by (cases t) (auto simp: timeTailAt_def)

lemma timeAt_colon: "timeAt s = Some m \<Longrightarrow> CHR '':'' \<in> set s"
  by (cases s; cases "tl s")
     (auto simp: timeAt_def split: if_splits dest!: timeTailAt_colon)

lemma timeMatch_colon: "timeMatch b s = Some m \<Longrightarrow> CHR '':'' \<in> set s"
proof (induction s arbitrary: b)
  case Nil
  then show ?case by simp
next
  case (Cons c cs)
  then show ?case
    by (auto split: option.splits if_splits dest: timeAt_colon)
qed

lemma colon_no_digit: "\<not> isDigit CHR '':''" "\<not> isWhiteSpace CHR '':''"
  by (simp_all add: isDigit_def isWhiteSpace_def code_def)

lemma numeric_no_time:
  assumes "list_all isDigit (trim input)"
  shows "timeMatch b input = None"
proof (rule ccontr)
  assume "timeMatch b input \<noteq> None"
  then obtain m where "timeMatch b input = Some m" by auto
  then have "CHR '':'' \<in> set input" by (rule timeMatch_colon)
  with set_trim [of input] have "isWhiteSpace CHR '':'' \<or> CHR '':'' \<in> set (trim input)"
    by auto
  with assms colon_no_digit show False
    by (auto simp: list_all_iff)
qed

lemma parseSlotSelection_numeric:
  assumes "numericMatch (trim input) = Some ds"
  shows "parseSlotSelection input offered =
           (if 1 \<le> Number ds \<and> Number ds \<le> length offered
            then Some (offered ! (Number ds - 1)) else None)"
proof -
  from assms have ds: "trim input = ds" "list_all isDigit (trim input)"
    by (auto simp: numericMatch_def split: if_splits)
  have t: "slotByTime input offered = None"
    by (simp add: slotByTime_def numeric_no_time [OF ds(2)])
  have idx: "slotByIndex input offered =
      (if 1 \<le> Number ds \<and> Number ds \<le> length offered
       then Some (offered ! (Number ds - 1)) else None)"
  proof (cases "1 \<le> Number ds \<and> Number ds \<le> length offered")
    case True
    then have "nat (int (Number ds) - 1) = Number ds - 1" by simp
    with True assms show ?thesis
      by (simp add: slotByIndex_def Let_def)
  next
    case False
    with assms show ?thesis
      by (auto simp: slotByIndex_def Let_def)
  qed
  show ?thesis
    by (cases "offered = []") (auto simp: parseSlotSelection_def idx t)
qed

text \<open>
  C9. For every slot list and every integer \<open>N\<close>, the slot-selection extractor applied
  to the decimal numeral of \<open>N\<close> returns the element at position \<open>N - 1\<close> when
  \<open>1 \<le> N \<le> length\<close> of the list, and absent otherwise. The same holds for every
  input that is purely numeric after trimming, so the index decides alone there; and
  whenever the numeric branch finds a slot, that slot is the result, whatever the
  time-literal branch would find.
\<close>

theorem parseSlotSelection_ordinal:
  "parseSlotSelection (decimal N) offered =
     (if 1 \<le> N \<and> N \<le> length offered then Some (offered ! (N - 1)) else None) \<and>
   (numericMatch (trim input) = Some ds \<longrightarrow>
      parseSlotSelection input offered =
        (if 1 \<le> Number ds \<and> Number ds \<le> length offered
         then Some (offered ! (Number ds - 1)) else None)) \<and>
   (slotByIndex input offered = Some slot \<longrightarrow> parseSlotSelection input offered = Some slot)"
proof -
  have "numericMatch (trim (decimal N)) = Some (decimal N)"
    by (simp add: numericMatch_def trim_digits decimal_digits decimal_not_empty)
  then have "parseSlotSelection (decimal N) offered =
     (if 1 \<le> N \<and> N \<le> length offered then Some (offered ! (N - 1)) else None)"
    using parseSlotSelection_numeric [of "decimal N" "decimal N" offered]
    by (simp add: Number_decimal)
  moreover have "slotByIndex input offered = Some slot \<Longrightarrow> offered \<noteq> []"
    by (auto simp: slotByIndex_def Let_def split: option.splits if_splits)
  then have "slotByIndex input offered = Some slot \<longrightarrow> parseSlotSelection input offered = Some slot"
    by (simp add: parseSlotSelection_def)
  ultimately show ?thesis
    using parseSlotSelection_numeric [of input ds offered] by blast
qed


theorem parseSlotSelection_ordinal_witness:
  "parseSlotSelection ''2'' [slotNine, slotTen] = Some slotTen \<and>
   parseSlotSelection ''3'' [slotNine, slotTen] = None \<and>
   parseSlotSelection ''0'' [slotNine, slotTen] = None \<and>
   numericMatch (trim '' 01 '') = Some ''01'' \<and>
   parseSlotSelection '' 01 '' [slotNine, slotTen] = Some slotNine \<and>
   slotByIndex '' 01 '' [slotNine, slotTen] = Some slotNine"
proof -
  have d: "decimal 2 = ''2''" "decimal 3 = ''3''" "decimal 0 = ''0''"
    by code_simp+
  have n: "numericMatch (trim '' 01 '') = Some ''01''" "Number ''01'' = 1"
    by code_simp+
  have i: "slotByIndex '' 01 '' [slotNine, slotTen] = Some slotNine"
    by code_simp
  note T = parseSlotSelection_ordinal [where offered = "[slotNine, slotTen]"
      and input = "'' 01 ''" and ds = "''01''" and slot = slotNine]
  from T [where N = 2] T [where N = 3] T [where N = 0] d n i show ?thesis
    by simp
qed

section \<open>The selected slot stays in the stored list\<close>

lemma parseSlotSelection_member:
  assumes "parseSlotSelection input offered = Some slot"
  shows "slot \<in> set offered"
proof -
  from assms consider "slotByIndex input offered = Some slot" | "slotByTime input offered = Some slot"
    by (auto simp: parseSlotSelection_def split: if_splits option.splits)
  then show ?thesis
  proof cases
    case 1
    then show ?thesis
      by (auto simp: slotByIndex_def Let_def split: option.splits if_splits)
  next
    case 2
    then show ?thesis
      by (auto simp: slotByTime_def find_Some_iff split: option.splits)
  qed
qed

lemma slotInv_initial: "slotInv createInitialState"
  by (simp add: slotInv_def createInitialState_def)

lemma slotInv_unselected: "selectedSlot state = None \<Longrightarrow> slotInv state"
  by (simp add: slotInv_def)

lemma bookingDateStep_inv:
  assumes "selectedSlot state = None" "written (bookingDateStep env state userText) = Some state'"
  shows "selectedSlot state' = None"
  using assms
  by (auto simp: bookingDateStep_def reply_def Let_def split: if_splits option.splits)

lemma bookingConfirmStep_inv:
  assumes "slotInv state" "written (bookingConfirmStep env state userText) = Some state'"
  shows "slotInv state'"
  using assms
  by (auto simp: bookingConfirmStep_def reply_def Let_def slotInv_def createInitialState_def
      split: if_splits option.splits prod.splits)

lemma handleBookingFlow_inv:
  assumes "slotInv state" "written (handleBookingFlow env state userText) = Some state'"
  shows "slotInv state'"
proof -
  define cur where "cur = (if intent state = None then state\<lparr>intent := Some Book\<rparr> else state)"
  have cur: "slotInv cur" using assms(1) by (simp add: cur_def slotInv_def split: option.splits)
  have flow: "handleBookingFlow env state userText =
     (if appointmentType cur = None then
        (case detectAppointmentType userText of
           Some inferredType \<Rightarrow>
             reply (Some (cur\<lparr>appointmentType := Some inferredType, step := askDate\<rparr>))
               [SayAskDate inferredType]
         | None \<Rightarrow> reply (Some (cur\<lparr>step := askType\<rparr>)) [SayAskType])
      else if \<not> truthy (date cur) then bookingDateStep env cur userText
      else if selectedSlot cur = None \<and> slots cur \<noteq> [] then
        (case parseSlotSelection userText (slots cur) of
           None \<Rightarrow> reply None [SaySlotNotMatched]
         | Some slot \<Rightarrow>
             reply (Some (cur\<lparr>selectedSlot := Some slot, step := askName\<rparr>))
               [SayHoldSlot slot (date cur)])
      else if \<not> truthy (patientName cur) then
        reply (Some (cur\<lparr>patientName := Some (trim userText), step := askEmail\<rparr>))
          [SayAskEmail]
      else if \<not> truthy (patientEmail cur) then
        reply (Some (cur\<lparr>patientEmail := Some (trim userText), step := askPhone\<rparr>))
          [SayAskPhone]
      else if \<not> truthy (patientPhone cur) then
        reply (Some (cur\<lparr>patientPhone := Some (trim userText), step := askReason\<rparr>))
          [SayAskReason]
      else if \<not> truthy (reason cur) then bookingConfirmStep env cur userText
      else reply None [])"
    unfolding handleBookingFlow_def cur_def Let_def by (rule refl)
  consider (ty) "appointmentType cur = None"
    | (dt) "appointmentType cur \<noteq> None" "\<not> truthy (date cur)"
    | (sl) "appointmentType cur \<noteq> None" "truthy (date cur)" "selectedSlot cur = None \<and> slots cur \<noteq> []"
    | (rest) "appointmentType cur \<noteq> None" "truthy (date cur)" "\<not> (selectedSlot cur = None \<and> slots cur \<noteq> [])"
    by blast
  then show ?thesis
  proof cases
    case ty
    with cur have "selectedSlot cur = None" by (auto simp: slotInv_def split: option.splits)
    with ty assms(2) show ?thesis
      by (auto simp: flow reply_def slotInv_def split: option.splits)
  next
    case dt
    with cur have "selectedSlot cur = None" by (auto simp: slotInv_def split: option.splits)
    with dt assms(2) have "selectedSlot state' = None"
      by (auto simp: flow dest: bookingDateStep_inv)
    then show ?thesis by (rule slotInv_unselected)
  next
    case sl
    with assms(2) show ?thesis
      by (auto simp: flow reply_def slotInv_def split: option.splits dest: parseSlotSelection_member)
  next
    case rest
    with assms(2) cur show ?thesis
      by (auto simp: flow reply_def split: if_splits dest: bookingConfirmStep_inv)
         (auto simp: slotInv_def split: option.splits)
  qed
qed

lemma handleRescheduleFlow_inv:
  assumes "slotInv state" "written (handleRescheduleFlow env state userText) = Some state'"
  shows "slotInv state'"
  using assms
  by (auto simp: handleRescheduleFlow_def reply_def Let_def slotInv_def createInitialState_def
      split: if_splits option.splits prod.splits)

lemma handleCancelFlow_inv:
  assumes "slotInv state" "written (handleCancelFlow env state userText) = Some state'"
  shows "slotInv state'"
  using assms
  by (auto simp: handleCancelFlow_def reply_def Let_def slotInv_def createInitialState_def
      split: if_splits option.splits prod.splits)

lemma handleSubmit_inv:
  assumes "slotInv state" "written (handleSubmit env state input) = Some state'"
  shows "slotInv state'"
proof (cases "trim input \<noteq> [] \<and> (step state = idle \<or> step state = askIntent)")
  case True
  show ?thesis
  proof (cases "detectIntent (trim input)")
    case Book
    with True assms(2) have
      "state' = (case written (handleBookingFlow env state (trim input)) of
                   None \<Rightarrow> createInitialState\<lparr>intent := Some Book\<rparr> | Some s \<Rightarrow> s)"
      by (auto simp: handleSubmit_def Let_def)
    moreover have "slotInv (createInitialState\<lparr>intent := Some Book\<rparr>)"
      by (simp add: slotInv_def createInitialState_def)
    ultimately show ?thesis
      using assms(1) handleBookingFlow_inv [of state env "trim input"]
      by (cases "written (handleBookingFlow env state (trim input))") simp_all
  next
    case Reschedule
    with True assms(2) show ?thesis
      by (auto simp: handleSubmit_def Let_def reply_def slotInv_def createInitialState_def)
  next
    case Cancel
    with True assms(2) show ?thesis
      by (auto simp: handleSubmit_def Let_def reply_def slotInv_def createInitialState_def)
  qed
next
  case False
  with assms(2) consider "written (handleBookingFlow env state (trim input)) = Some state'"
    | "written (handleRescheduleFlow env state (trim input)) = Some state'"
    | "written (handleCancelFlow env state (trim input)) = Some state'"
    by (auto simp: handleSubmit_def Let_def reply_def split: if_splits)
  then show ?thesis
    using assms(1)
    by cases (auto dest: handleBookingFlow_inv handleRescheduleFlow_inv handleCancelFlow_inv)
qed

lemma turn_inv: "slotInv state \<Longrightarrow> slotInv (turn env state input)"
  by (auto simp: turn_def split: option.splits dest: handleSubmit_inv)

lemma reachable_inv: "reachable state \<Longrightarrow> slotInv state"
  by (induction rule: reachable.induct) (simp_all add: slotInv_initial turn_inv)

lemma reachable_run: "reachable state \<Longrightarrow> reachable (run state turns)"
proof (induction turns arbitrary: state)
  case Nil
  then show ?case by simp
next
  case (Cons t turns)
  obtain env input where t: "t = (env, input)" by (cases t)
  from Cons.prems have "reachable (turn env state input)" by (rule reachable.after_turn)
  then have "reachable (run (turn env state input) turns)" by (rule Cons.IH)
  with t show ?case by simp
qed

lemma selected_fields:
  assumes "slotInv state" "selectedSlot state = Some slot"
  shows "slot \<in> set (slots state)" "truthy (date state)" "appointmentType state \<noteq> None"
  using assms by (simp_all add: slotInv_def)

lemma handleBookingFlow_keeps:
  assumes "slotInv state" "selectedSlot state = Some slot"
    and "written (handleBookingFlow env state userText) = Some state'"
  shows "selectedSlot state' = None \<or> (selectedSlot state' = Some slot \<and> slots state' = slots state)"
  using assms(3) selected_fields [OF assms(1,2)] assms(2)
  by (auto simp: handleBookingFlow_def bookingConfirmStep_def reply_def Let_def createInitialState_def
      split: if_splits option.splits prod.splits)

lemma handleRescheduleFlow_keeps:
  assumes "selectedSlot state = Some slot"
    and "written (handleRescheduleFlow env state userText) = Some state'"
  shows "selectedSlot state' = None \<or> (selectedSlot state' = Some slot \<and> slots state' = slots state)"
  using assms
  by (auto simp: handleRescheduleFlow_def reply_def Let_def createInitialState_def
      split: if_splits option.splits prod.splits)

lemma handleCancelFlow_keeps:
  assumes "selectedSlot state = Some slot"
    and "written (handleCancelFlow env state userText) = Some state'"
  shows "selectedSlot state' = None \<or> (selectedSlot state' = Some slot \<and> slots state' = slots state)"
  using assms
  by (auto simp: handleCancelFlow_def reply_def Let_def createInitialState_def
      split: if_splits option.splits prod.splits)

lemma handleSubmit_keeps:
  assumes "slotInv state" "selectedSlot state = Some slot"
    and "written (handleSubmit env state input) = Some state'"
  shows "selectedSlot state' = None \<or> (selectedSlot state' = Some slot \<and> slots state' = slots state)"
proof (cases "trim input \<noteq> [] \<and> (step state = idle \<or> step state = askIntent)")
  case True
  show ?thesis
  proof (cases "detectIntent (trim input)")
    case Book
    with True assms(3) have
      "state' = (case written (handleBookingFlow env state (trim input)) of
                   None \<Rightarrow> createInitialState\<lparr>intent := Some Book\<rparr> | Some s \<Rightarrow> s)"
      by (auto simp: handleSubmit_def Let_def)
    moreover have "selectedSlot (createInitialState\<lparr>intent := Some Book\<rparr>) = None"
      by (simp add: createInitialState_def)
    ultimately show ?thesis
      using handleBookingFlow_keeps [OF assms(1,2), of env "trim input"]
      by (cases "written (handleBookingFlow env state (trim input))") simp_all
  next
    case Reschedule
    with True assms(3) show ?thesis
      by (auto simp: handleSubmit_def Let_def reply_def createInitialState_def)
  next
    case Cancel
    with True assms(3) show ?thesis
      by (auto simp: handleSubmit_def Let_def reply_def createInitialState_def)
  qed
next
  case False
  with assms(3) consider "written (handleBookingFlow env state (trim input)) = Some state'"
    | "written (handleRescheduleFlow env state (trim input)) = Some state'"
    | "written (handleCancelFlow env state (trim input)) = Some state'"
    by (auto simp: handleSubmit_def Let_def reply_def split: if_splits)
  then show ?thesis
  proof cases
    case 1
    then show ?thesis by (rule handleBookingFlow_keeps [OF assms(1,2)])
  next
    case 2
    then show ?thesis by (rule handleRescheduleFlow_keeps [OF assms(2)])
  next
    case 3
    then show ?thesis by (rule handleCancelFlow_keeps [OF assms(2)])
  qed
qed

lemma turn_keeps:
  assumes "slotInv state" "selectedSlot state = Some slot"
  shows "selectedSlot (turn env state input) = None \<or>
         (selectedSlot (turn env state input) = Some slot \<and> slots (turn env state input) = slots state)"
proof (cases "written (handleSubmit env state input)")
  case None
  with assms(2) show ?thesis by (simp add: turn_def)
next
  case (Some state')
  with handleSubmit_keeps [OF assms Some] show ?thesis by (simp add: turn_def)
qed

lemma bookingDateStep_fetch:
  assumes "selectedSlot state = None"
    and "FetchAvailability d ty \<in> set (called (bookingDateStep env state userText))"
    and "availabilityResponse env = Some fetched"
  shows "\<exists>state'. written (bookingDateStep env state userText) = Some state' \<and>
           slots state' = take 5 (filter available fetched) \<and> selectedSlot state' = None"
  using assms
  by (auto simp: bookingDateStep_def reply_def Let_def split: if_splits option.splits)

lemma handleBookingFlow_fetch:
  assumes "slotInv state"
    and "FetchAvailability d ty \<in> set (called (handleBookingFlow env state userText))"
    and "availabilityResponse env = Some fetched"
  shows "\<exists>state'. written (handleBookingFlow env state userText) = Some state' \<and>
           slots state' = take 5 (filter available fetched) \<and> selectedSlot state' = None"
proof -
  define cur where "cur = (if intent state = None then state\<lparr>intent := Some Book\<rparr> else state)"
  have inv: "slotInv cur" using assms(1) by (simp add: cur_def slotInv_def split: option.splits)
  from assms(2) have step: "appointmentType cur \<noteq> None" "\<not> truthy (date cur)"
    and call: "FetchAvailability d ty \<in> set (called (bookingDateStep env cur userText))"
    and flow: "handleBookingFlow env state userText = bookingDateStep env cur userText"
    unfolding handleBookingFlow_def cur_def [symmetric] Let_def
    by (auto simp: reply_def bookingConfirmStep_def Let_def split: if_splits option.splits prod.splits)
  from inv step(2) have "selectedSlot cur = None"
    by (auto simp: slotInv_def split: option.splits)
  from bookingDateStep_fetch [OF this call assms(3)] flow show ?thesis by simp
qed

lemma other_flows_no_fetch:
  "FetchAvailability d ty \<notin> set (called (handleRescheduleFlow env state userText))"
  "FetchAvailability d ty \<notin> set (called (handleCancelFlow env state userText))"
  by (auto simp: handleRescheduleFlow_def handleCancelFlow_def reply_def Let_def
      split: if_splits option.splits prod.splits)

lemma handleSubmit_fetch:
  assumes "slotInv state"
    and "FetchAvailability d ty \<in> set (called (handleSubmit env state input))"
    and "availabilityResponse env = Some fetched"
  shows "slots (turn env state input) = take 5 (filter available fetched) \<and>
         selectedSlot (turn env state input) = None"
proof -
  from assms(2) have call: "FetchAvailability d ty \<in> set (called (handleBookingFlow env state (trim input)))"
    and w: "written (handleSubmit env state input) = written (handleBookingFlow env state (trim input))
          \<or> written (handleBookingFlow env state (trim input)) = None"
    using other_flows_no_fetch [of d ty env state "trim input"]
    by (auto simp: handleSubmit_def Let_def reply_def split: if_splits Intent.splits option.splits)
  from handleBookingFlow_fetch [OF assms(1) call assms(3)] w show ?thesis
    by (auto simp: turn_def)
qed


text \<open>
  C5. In every state that a conversation can reach, a selected slot is an element of the
  slot list stored in the state. That list is the most recently fetched one: a turn that
  queries availability successfully stores exactly the (at most five) available slots of
  the answer and leaves no selection behind, and while a selection stands, a turn either
  keeps both the selection and the list or drops the selection. So no selection is ever
  held against a list older than the stored one.
\<close>

theorem selectedSlot_in_stored_list:
  assumes "reachable state"
  shows "(selectedSlot state = Some slot \<longrightarrow>
            slot \<in> set (slots state) \<and>
            (selectedSlot (turn env state input) = None \<or>
             (selectedSlot (turn env state input) = Some slot \<and>
              slots (turn env state input) = slots state))) \<and>
         (FetchAvailability d ty \<in> set (called (handleSubmit env state input)) \<and>
          availabilityResponse env = Some fetched \<longrightarrow>
            slots (turn env state input) = take 5 (filter available fetched) \<and>
            selectedSlot (turn env state input) = None)"
proof -
  from assms have inv: "slotInv state" by (rule reachable_inv)
  have "slot \<in> set (slots state)" if "selectedSlot state = Some slot"
    using selected_fields(1) [OF inv that] .
  moreover have "selectedSlot (turn env state input) = None \<or>
      (selectedSlot (turn env state input) = Some slot \<and> slots (turn env state input) = slots state)"
    if "selectedSlot state = Some slot"
    using turn_keeps [OF inv that] .
  moreover have "slots (turn env state input) = take 5 (filter available fetched) \<and>
      selectedSlot (turn env state input) = None"
    if "FetchAvailability d ty \<in> set (called (handleSubmit env state input))"
      and "availabilityResponse env = Some fetched"
    using handleSubmit_fetch [OF inv that] .
  ultimately show ?thesis by blast
qed

theorem selectedSlot_in_stored_list_witness:
  "reachable (run createInitialState
      [(serviceUp, ''book a physical exam''), (serviceUp, ''tomorrow''), (serviceUp, ''1'')]) \<and>
   selectedSlot (run createInitialState
      [(serviceUp, ''book a physical exam''), (serviceUp, ''tomorrow''), (serviceUp, ''1'')])
     = Some slotNine \<and>
   slotNine \<in> set (slots (run createInitialState
      [(serviceUp, ''book a physical exam''), (serviceUp, ''tomorrow''), (serviceUp, ''1'')])) \<and>
   slots (run createInitialState
      [(serviceUp, ''book a physical exam''), (serviceUp, ''tomorrow''), (serviceUp, ''1'')])
     = [slotNine] \<and>
   reachable (run createInitialState [(serviceUp, ''book a physical exam'')]) \<and>
   FetchAvailability ''2026-11-03'' physicalExam
     \<in> set (called (handleSubmit serviceUp
           (run createInitialState [(serviceUp, ''book a physical exam'')]) ''tomorrow'')) \<and>
   availabilityResponse serviceUp = Some [slotNine, slotTen] \<and>
   slots (turn serviceUp (run createInitialState [(serviceUp, ''book a physical exam'')])
            ''tomorrow'') = [slotNine] \<and>
   selectedSlot (turn serviceUp (run createInitialState [(serviceUp, ''book a physical exam'')])
            ''tomorrow'') = None"
proof -
  let ?s = "run createInitialState
      [(serviceUp, ''book a physical exam''), (serviceUp, ''tomorrow''), (serviceUp, ''1'')]"
  let ?a = "run createInitialState [(serviceUp, ''book a physical exam'')]"
  have r: "reachable ?s" and ra: "reachable ?a"
    by (rule reachable_run [OF reachable.start])+
  have sel: "selectedSlot ?s = Some slotNine" and l: "slots ?s = [slotNine]"
    by code_simp+
  have f: "FetchAvailability ''2026-11-03'' physicalExam
      \<in> set (called (handleSubmit serviceUp ?a ''tomorrow''))"
    by code_simp
  have ok: "availabilityResponse serviceUp = Some [slotNine, slotTen]"
    by (simp add: serviceUp_def)
  have five: "take 5 (filter available [slotNine, slotTen]) = [slotNine]"
    by (simp add: slotNine_def slotTen_def)
  from selectedSlot_in_stored_list [OF r, of slotNine serviceUp "''Jane Doe''"] sel
  have 1: "slotNine \<in> set (slots ?s)" by blast
  from selectedSlot_in_stored_list [OF ra, where env = serviceUp and input = "''tomorrow''"
      and d = "''2026-11-03''" and ty = physicalExam and fetched = "[slotNine, slotTen]"] f ok
  have "slots (turn serviceUp ?a ''tomorrow'') = take 5 (filter available [slotNine, slotTen]) \<and>
      selectedSlot (turn serviceUp ?a ''tomorrow'') = None"
    by blast
  then have 2: "slots (turn serviceUp ?a ''tomorrow'') = [slotNine]"
    and 3: "selectedSlot (turn serviceUp ?a ''tomorrow'') = None"
    by (simp_all only: five)
  from r sel 1 l ra f ok 2 3 show ?thesis by (intro conjI)
qed

section \<open>Remote calls and their failure\<close>

lemma dropWhile_id: "xs = [] \<or> \<not> P (hd xs) \<Longrightarrow> dropWhile P xs = xs"
  by (cases xs) auto

lemma dropWhile_hd: "dropWhile P xs = [] \<or> \<not> P (hd (dropWhile P xs))"
  using hd_dropWhile [of P xs] by blast

lemma trim_trim: "trim (trim s) = trim s"
proof -
  define a where "a = dropWhile isWhiteSpace s"
  define b where "b = dropWhile isWhiteSpace (rev a)"
  have t: "trim s = rev b" by (simp add: trim_def a_def b_def)
  have b: "b = [] \<or> \<not> isWhiteSpace (hd b)"
    unfolding b_def by (rule dropWhile_hd)
  have a: "a = [] \<or> \<not> isWhiteSpace (hd a)"
    unfolding a_def by (rule dropWhile_hd)
  have "rev a = takeWhile isWhiteSpace (rev a) @ b"
    by (simp add: b_def)
  then have "a = rev b @ rev (takeWhile isWhiteSpace (rev a))"
    by (metis rev_append rev_rev_ident)
  then have "b \<noteq> [] \<Longrightarrow> hd (rev b) = hd a" "b \<noteq> [] \<Longrightarrow> a \<noteq> []"
    by (metis hd_append2 rev_is_Nil_conv, metis Nil_is_append_conv rev_is_Nil_conv)
  with a have "rev b = [] \<or> \<not> isWhiteSpace (hd (rev b))" by auto
  then have 1: "dropWhile isWhiteSpace (rev b) = rev b" by (rule dropWhile_id)
  from b have 2: "dropWhile isWhiteSpace b = b" by (rule dropWhile_id)
  show ?thesis
    unfolding t by (simp add: trim_def 1 2)
qed

lemma bookingDateStep_called:
  "called (bookingDateStep env state userText) = [] \<or>
   (\<exists>d ty. called (bookingDateStep env state userText) = [FetchAvailability d ty])"
  by (simp add: bookingDateStep_def reply_def Let_def split: option.splits)

lemma bookingConfirmStep_called:
  "called (bookingConfirmStep env state userText) = [] \<or>
   (\<exists>ty d sl n e p r.
      called (bookingConfirmStep env state userText) = [BookAppointment ty d sl n e p r])"
  by (simp add: bookingConfirmStep_def reply_def Let_def split: option.splits prod.splits)

lemma handleBookingFlow_called:
  "called (handleBookingFlow env state userText) = [] \<or>
   (\<exists>d ty. called (handleBookingFlow env state userText) = [FetchAvailability d ty]) \<or>
   (\<exists>ty d sl n e p r.
      called (handleBookingFlow env state userText) = [BookAppointment ty d sl n e p r])"
proof -
  define cur where "cur = (if intent state = None then state\<lparr>intent := Some Book\<rparr> else state)"
  have "called (handleBookingFlow env state userText) = [] \<or>
        called (handleBookingFlow env state userText) = called (bookingDateStep env cur userText) \<or>
        called (handleBookingFlow env state userText) = called (bookingConfirmStep env cur userText)"
    unfolding handleBookingFlow_def cur_def [symmetric] Let_def
    by (simp add: reply_def split: option.splits)
  with bookingDateStep_called [of env cur userText] bookingConfirmStep_called [of env cur userText]
  show ?thesis by metis
qed

lemma booking_calls:
  "RescheduleAppointment b d t \<notin> set (called (handleBookingFlow env state userText))"
  "CancelAppointment b r \<notin> set (called (handleBookingFlow env state userText))"
  using handleBookingFlow_called [of env state userText] by auto

lemma reschedule_calls:
  "CancelAppointment b r \<notin> set (called (handleRescheduleFlow env state userText))"
  "BookAppointment ty d sl n e p r \<notin> set (called (handleRescheduleFlow env state userText))"
  by (auto simp: handleRescheduleFlow_def reply_def Let_def
      split: if_splits option.splits prod.splits)

lemma cancel_calls:
  "RescheduleAppointment b d t \<notin> set (called (handleCancelFlow env state userText))"
  "BookAppointment ty d sl n e p r \<notin> set (called (handleCancelFlow env state userText))"
  by (auto simp: handleCancelFlow_def reply_def Let_def
      split: if_splits option.splits prod.splits)

lemma reschedule_failure:
  assumes "RescheduleAppointment b d t \<in> set (called (handleRescheduleFlow env state userText))"
    and "rescheduleResponse env = None"
  shows "written (handleRescheduleFlow env state userText) = Some createInitialState"
  using assms
  by (auto simp: handleRescheduleFlow_def reply_def Let_def split: if_splits option.splits)

lemma cancel_failure:
  assumes "CancelAppointment b r \<in> set (called (handleCancelFlow env state userText))"
    and "cancelResponse env = None"
  shows "written (handleCancelFlow env state userText) = Some createInitialState"
  using assms
  by (auto simp: handleCancelFlow_def reply_def Let_def split: if_splits option.splits)

text \<open>Which handler a turn runs, by the calls it makes.\<close>

lemma reschedule_call_dispatch:
  assumes "RescheduleAppointment b d t \<in> set (called (handleSubmit env state input))"
  shows "handleSubmit env state input = handleRescheduleFlow env state (trim input)"
  using assms booking_calls(1) [of b d t env state "trim input"]
    cancel_calls(1) [of b d t env state "trim input"]
  by (auto simp: handleSubmit_def Let_def reply_def split: if_splits Intent.splits)

lemma cancel_call_dispatch:
  assumes "CancelAppointment b r \<in> set (called (handleSubmit env state input))"
  shows "handleSubmit env state input = handleCancelFlow env state (trim input)"
  using assms booking_calls(2) [of b r env state "trim input"]
    reschedule_calls(1) [of b r env state "trim input"]
  by (auto simp: handleSubmit_def Let_def reply_def split: if_splits Intent.splits)

text \<open>
  C3. A turn whose remote reschedule call fails, and likewise a turn whose remote cancel
  call fails, leaves the conversation in the empty initial state: intent unset, step
  awaiting the intent, and every collected field empty. The agent reports the failure.
\<close>

theorem failed_reschedule_or_cancel_resets:
  "(RescheduleAppointment b d t \<in> set (called (handleSubmit env state input)) \<and>
    rescheduleResponse env = None \<longrightarrow>
      turn env state input = createInitialState \<and>
      said (handleSubmit env state input) = [SayRescheduleFailed]) \<and>
   (CancelAppointment b r \<in> set (called (handleSubmit env state input)) \<and>
    cancelResponse env = None \<longrightarrow>
      turn env state input = createInitialState \<and>
      said (handleSubmit env state input) = [SayCancelFailed]) \<and>
   intent createInitialState = None \<and> step createInitialState = askIntent \<and>
   appointmentType createInitialState = None \<and> date createInitialState = None \<and>
   slots createInitialState = [] \<and> selectedSlot createInitialState = None \<and>
   patientName createInitialState = None \<and> patientEmail createInitialState = None \<and>
   patientPhone createInitialState = None \<and> reason createInitialState = None \<and>
   bookingId createInitialState = None"
proof -
  have "turn env state input = createInitialState \<and>
        said (handleSubmit env state input) = [SayRescheduleFailed]"
    if c: "RescheduleAppointment b d t \<in> set (called (handleSubmit env state input))"
      and f: "rescheduleResponse env = None"
  proof -
    note eq = reschedule_call_dispatch [OF c]
    from c f show ?thesis
      unfolding turn_def eq
      by (auto simp: handleRescheduleFlow_def reply_def Let_def split: if_splits option.splits)
  qed
  moreover have "turn env state input = createInitialState \<and>
        said (handleSubmit env state input) = [SayCancelFailed]"
    if c: "CancelAppointment b r \<in> set (called (handleSubmit env state input))"
      and f: "cancelResponse env = None"
  proof -
    note eq = cancel_call_dispatch [OF c]
    from c f show ?thesis
      unfolding turn_def eq
      by (auto simp: handleCancelFlow_def reply_def Let_def split: if_splits option.splits)
  qed
  ultimately show ?thesis
    by (simp add: createInitialState_def)
qed


theorem failed_reschedule_or_cancel_resets_witness:
  "RescheduleAppointment ''APPT-20261103-0900'' ''2026-11-03'' ''10:30''
     \<in> set (called (handleSubmit serviceDown
           (run createInitialState
              [(serviceUp, ''I need to reschedule''), (serviceUp, ''APPT-20261103-0900''),
               (serviceUp, ''tomorrow'')])
           ''at 10:30'')) \<and>
   rescheduleResponse serviceDown = None \<and>
   turn serviceDown
     (run createInitialState
        [(serviceUp, ''I need to reschedule''), (serviceUp, ''APPT-20261103-0900''),
         (serviceUp, ''tomorrow'')])
     ''at 10:30'' = createInitialState \<and>
   CancelAppointment ''APPT-20261103-0900'' (Some ''feeling better'')
     \<in> set (called (handleSubmit serviceDown
           (run createInitialState
              [(serviceUp, ''cancel my appointment''), (serviceUp, ''APPT-20261103-0900'')])
           ''feeling better'')) \<and>
   cancelResponse serviceDown = None \<and>
   turn serviceDown
     (run createInitialState
        [(serviceUp, ''cancel my appointment''), (serviceUp, ''APPT-20261103-0900'')])
     ''feeling better'' = createInitialState"
proof -
  let ?r = "run createInitialState
              [(serviceUp, ''I need to reschedule''), (serviceUp, ''APPT-20261103-0900''),
               (serviceUp, ''tomorrow'')]"
  let ?c = "run createInitialState
              [(serviceUp, ''cancel my appointment''), (serviceUp, ''APPT-20261103-0900'')]"
  have r: "RescheduleAppointment ''APPT-20261103-0900'' ''2026-11-03'' ''10:30''
      \<in> set (called (handleSubmit serviceDown ?r ''at 10:30''))"
    by code_simp
  have c: "CancelAppointment ''APPT-20261103-0900'' (Some ''feeling better'')
      \<in> set (called (handleSubmit serviceDown ?c ''feeling better''))"
    by code_simp
  have d: "rescheduleResponse serviceDown = None" "cancelResponse serviceDown = None"
    by (simp_all add: serviceDown_def serviceUp_def)
  from failed_reschedule_or_cancel_resets [of "''APPT-20261103-0900''" "''2026-11-03''"
      "''10:30''" serviceDown ?r "''at 10:30''"] r d
  have 1: "turn serviceDown ?r ''at 10:30'' = createInitialState" by blast
  from failed_reschedule_or_cancel_resets [where env = serviceDown and state = ?c
      and input = "''feeling better''" and b = "''APPT-20261103-0900''"
      and r = "Some ''feeling better''"] c d
  have 2: "turn serviceDown ?c ''feeling better'' = createInitialState" by blast
  from r c d 1 2 show ?thesis by blast
qed

section \<open>Completion of a flow\<close>

lemma book_success:
  assumes "BookAppointment ty d sl n e p r \<in> set (called (handleBookingFlow env state userText))"
    and "bookResponse env = Some (bid, cc)"
  shows "written (handleBookingFlow env state userText) =
           Some (state\<lparr>intent := (if intent state = None then Some Book else intent state),
                   reason := Some (trim userText), bookingId := Some bid,
                   step := bookingComplete\<rparr>)"
proof -
  define cur where "cur = (if intent state = None then state\<lparr>intent := Some Book\<rparr> else state)"
  have "called (handleBookingFlow env state userText) = [] \<or>
        called (handleBookingFlow env state userText) = called (bookingDateStep env cur userText) \<or>
        handleBookingFlow env state userText = bookingConfirmStep env cur userText"
    unfolding handleBookingFlow_def cur_def [symmetric] Let_def
    by (simp add: reply_def split: option.splits)
  with assms(1) bookingDateStep_called [of env cur userText]
  have flow: "handleBookingFlow env state userText = bookingConfirmStep env cur userText"
    by auto
  from assms show ?thesis
    unfolding flow
    by (auto simp: bookingConfirmStep_def reply_def Let_def cur_def split: if_splits)
qed

lemma book_call_dispatch:
  assumes "BookAppointment ty d sl n e p r \<in> set (called (handleSubmit env state input))"
  shows "called (handleSubmit env state input) = called (handleBookingFlow env state (trim input)) \<and>
         (written (handleSubmit env state input) = written (handleBookingFlow env state (trim input))
          \<or> written (handleBookingFlow env state (trim input)) = None)"
  using assms reschedule_calls(2) [of ty d sl n e p r env state "trim input"]
    cancel_calls(2) [of ty d sl n e p r env state "trim input"]
  by (auto simp: handleSubmit_def Let_def reply_def split: if_splits Intent.splits option.splits)

lemma reschedule_success:
  assumes c: "RescheduleAppointment b d t \<in> set (called (handleRescheduleFlow env state userText))"
    and ok: "rescheduleResponse env = Some (nid, pid)"
  shows "written (handleRescheduleFlow env state userText) =
           Some (state\<lparr>bookingId := Some nid, step := rescheduleComplete\<rparr>)"
proof -
  from c have shape: "truthy (date state)" "step state = askNewTimeForReschedule"
    "truthy (bookingId state)" "timeMatch False userText \<noteq> None"
    by (auto simp: handleRescheduleFlow_def reply_def Let_def split: if_splits option.splits)
  with ok show ?thesis
    by (auto simp: handleRescheduleFlow_def Let_def)
qed

lemma cancel_success:
  assumes c: "CancelAppointment b why \<in> set (called (handleCancelFlow env state userText))"
    and ok: "cancelResponse env = Some cid"
  shows "written (handleCancelFlow env state userText) =
           Some (state\<lparr>reason := why, bookingId := Some cid, step := cancelComplete\<rparr>)"
proof -
  from c have shape: "step state = askReasonForCancel" "truthy (bookingId state)"
    "why = (if toLowerCase (trim userText) = ''skip'' then None else Some (trim userText))"
    by (auto simp: handleCancelFlow_def reply_def Let_def split: if_splits option.splits)
  with ok show ?thesis
    by (auto simp: handleCancelFlow_def Let_def)
qed

text \<open>
  What the three flows write when their remote call succeeds: every field collected so
  far, the booking id returned by the service, and the flow's complete step.
\<close>

lemma completion_keeps_collected_state:
  "(BookAppointment ty d sl n e p r \<in> set (called (handleSubmit env state input)) \<and>
    bookResponse env = Some (bid, cc) \<longrightarrow>
      turn env state input =
        state\<lparr>intent := (if intent state = None then Some Book else intent state),
              reason := Some (trim input), bookingId := Some bid, step := bookingComplete\<rparr>) \<and>
   (RescheduleAppointment b d' t \<in> set (called (handleSubmit env state input)) \<and>
    rescheduleResponse env = Some (nid, pid) \<longrightarrow>
      turn env state input = state\<lparr>bookingId := Some nid, step := rescheduleComplete\<rparr>) \<and>
   (CancelAppointment b' why \<in> set (called (handleSubmit env state input)) \<and>
    cancelResponse env = Some cid \<longrightarrow>
      turn env state input =
        state\<lparr>reason := why, bookingId := Some cid, step := cancelComplete\<rparr>)"
proof -
  have 1: "BookAppointment ty d sl n e p r \<in> set (called (handleSubmit env state input)) \<and>
      bookResponse env = Some (bid, cc) \<longrightarrow>
      turn env state input =
        state\<lparr>intent := (if intent state = None then Some Book else intent state),
              reason := Some (trim input), bookingId := Some bid, step := bookingComplete\<rparr>"
  proof (intro impI, elim conjE)
    assume c: "BookAppointment ty d sl n e p r \<in> set (called (handleSubmit env state input))"
      and ok: "bookResponse env = Some (bid, cc)"
    let ?done = "state\<lparr>intent := (if intent state = None then Some Book else intent state),
              reason := Some (trim input), bookingId := Some bid, step := bookingComplete\<rparr>"
    from book_call_dispatch [OF c] c
    have c': "BookAppointment ty d sl n e p r \<in> set (called (handleBookingFlow env state (trim input)))"
      and w: "written (handleSubmit env state input) = written (handleBookingFlow env state (trim input))
          \<or> written (handleBookingFlow env state (trim input)) = None"
      by simp_all
    from book_success [OF c' ok]
    have b: "written (handleBookingFlow env state (trim input)) = Some ?done"
      by (simp only: trim_trim)
    with w have "written (handleSubmit env state input) = Some ?done"
      by (metis option.distinct(1))
    then show "turn env state input = ?done"
      by (simp only: turn_def option.case)
  qed
  have 2: "RescheduleAppointment b d' t \<in> set (called (handleSubmit env state input)) \<and>
      rescheduleResponse env = Some (nid, pid) \<longrightarrow>
      turn env state input = state\<lparr>bookingId := Some nid, step := rescheduleComplete\<rparr>"
  proof (intro impI, elim conjE)
    assume c: "RescheduleAppointment b d' t \<in> set (called (handleSubmit env state input))"
      and ok: "rescheduleResponse env = Some (nid, pid)"
    note eq = reschedule_call_dispatch [OF c]
    from c have c': "RescheduleAppointment b d' t \<in> set (called (handleRescheduleFlow env state (trim input)))"
      by (simp only: eq)
    show "turn env state input = state\<lparr>bookingId := Some nid, step := rescheduleComplete\<rparr>"
      by (simp only: turn_def eq reschedule_success [OF c' ok] option.case)
  qed
  have 3: "CancelAppointment b' why \<in> set (called (handleSubmit env state input)) \<and>
      cancelResponse env = Some cid \<longrightarrow>
      turn env state input =
        state\<lparr>reason := why, bookingId := Some cid, step := cancelComplete\<rparr>"
  proof (intro impI, elim conjE)
    assume c: "CancelAppointment b' why \<in> set (called (handleSubmit env state input))"
      and ok: "cancelResponse env = Some cid"
    note eq = cancel_call_dispatch [OF c]
    from c have c': "CancelAppointment b' why \<in> set (called (handleCancelFlow env state (trim input)))"
      by (simp only: eq)
    show "turn env state input =
        state\<lparr>reason := why, bookingId := Some cid, step := cancelComplete\<rparr>"
      by (simp only: turn_def eq cancel_success [OF c' ok] option.case)
  qed
  show ?thesis
    by (rule conjI [OF 1 conjI [OF 2 3]])
qed

section \<open>Example conversations\<close>

lemma booking_until_reason: "run createInitialState untilReason = awaitingReason"
proof -
  let ?s1 = "createInitialState\<lparr>intent := Some Book, step := askDate,
    appointmentType := Some physicalExam\<rparr>"
  let ?s2 = "?s1\<lparr>step := selectSlot, date := Some ''2026-11-03'', slots := [slotNine]\<rparr>"
  let ?s3 = "?s2\<lparr>step := askName, selectedSlot := Some slotNine\<rparr>"
  let ?s4 = "?s3\<lparr>step := askEmail, patientName := Some ''Jane Doe''\<rparr>"
  let ?s5 = "?s4\<lparr>step := askPhone, patientEmail := Some ''jane@example.com''\<rparr>"
  have 1: "turn serviceUp createInitialState ''book a physical exam'' = ?s1" by code_simp
  have 2: "turn serviceUp ?s1 ''tomorrow'' = ?s2" by code_simp
  have 3: "turn serviceUp ?s2 ''1'' = ?s3" by code_simp
  have 4: "turn serviceUp ?s3 ''Jane Doe'' = ?s4" by code_simp
  have 5: "turn serviceUp ?s4 ''jane@example.com'' = ?s5" by code_simp
  have 6: "turn serviceUp ?s5 ''555-0100'' = awaitingReason" by code_simp
  show ?thesis
    unfolding untilReason_def by (simp only: run.simps 1 2 3 4 5 6)
qed

lemma no_slot_until_reason: "run createInitialState untilReasonNoSlot = awaitingReasonNoSlot"
proof -
  let ?s1 = "createInitialState\<lparr>intent := Some Book, step := askDate,
    appointmentType := Some physicalExam\<rparr>"
  let ?s2 = "?s1\<lparr>date := Some ''2026-11-03''\<rparr>"
  let ?s3 = "?s2\<lparr>step := askEmail, patientName := Some ''Jane Doe''\<rparr>"
  let ?s4 = "?s3\<lparr>step := askPhone, patientEmail := Some ''jane@example.com''\<rparr>"
  have 1: "turn serviceUp createInitialState ''book a physical exam'' = ?s1" by code_simp
  have 2: "turn serviceFull ?s1 ''tomorrow'' = ?s2" by code_simp
  have 3: "turn serviceUp ?s2 ''Jane Doe'' = ?s3" by code_simp
  have 4: "turn serviceUp ?s3 ''jane@example.com'' = ?s4" by code_simp
  have 5: "turn serviceUp ?s4 ''555-0100'' = awaitingReasonNoSlot" by code_simp
  show ?thesis
    unfolding untilReasonNoSlot_def by (simp only: run.simps 1 2 3 4 5)
qed

text \<open>
  C6 (what the code does). A flow that reaches its complete step is not reset. The turn
  whose book, reschedule or cancel call succeeds leaves a state with the collected fields
  and the step \<open>bookingComplete\<close>, \<open>rescheduleComplete\<close> or \<open>cancelComplete\<close>, which
  is not the empty initial state. The intent is detected only in the steps \<open>idle\<close> and
  \<open>askIntent\<close>, so every later turn, also the \<open>reschedule\<close> or \<open>cancel\<close> that the
  booking confirmation invites, runs no branch: no state change, no reply, no remote call.
\<close>

theorem completed_flow_is_not_reset:
  "run createInitialState untilReason = awaitingReason \<and>
   said (handleSubmit serviceUp awaitingReason ''annual checkup'') =
     [SayBookingConfirmed ''APPT-20261103-0900'' ''CONF-7Q2''] \<and>
   turn serviceUp awaitingReason ''annual checkup'' =
     awaitingReason\<lparr>reason := Some ''annual checkup'', bookingId := Some ''APPT-20261103-0900'',
       step := bookingComplete\<rparr> \<and>
   turn serviceUp awaitingReason ''annual checkup'' \<noteq> createInitialState \<and>
   handleSubmit serviceUp (turn serviceUp awaitingReason ''annual checkup'')
     ''reschedule APPT-20261103-0900'' = \<lparr>written = None, said = [], called = []\<rparr> \<and>
   step (turn serviceUp (run createInitialState untilNewTime) ''at 10:30'') = rescheduleComplete \<and>
   turn serviceUp (run createInitialState untilNewTime) ''at 10:30'' \<noteq> createInitialState \<and>
   handleSubmit serviceUp (turn serviceUp (run createInitialState untilNewTime) ''at 10:30'')
     ''cancel my appointment'' = \<lparr>written = None, said = [], called = []\<rparr> \<and>
   step (turn serviceUp (run createInitialState untilCancelReason) ''skip'') = cancelComplete \<and>
   turn serviceUp (run createInitialState untilCancelReason) ''skip'' \<noteq> createInitialState \<and>
   handleSubmit serviceUp (turn serviceUp (run createInitialState untilCancelReason) ''skip'')
     ''book a physical exam'' = \<lparr>written = None, said = [], called = []\<rparr>"
proof -
  let ?b = "turn serviceUp awaitingReason ''annual checkup''"
  let ?r = "turn serviceUp (run createInitialState untilNewTime) ''at 10:30''"
  let ?c = "turn serviceUp (run createInitialState untilCancelReason) ''skip''"
  have b1: "said (handleSubmit serviceUp awaitingReason ''annual checkup'') =
     [SayBookingConfirmed ''APPT-20261103-0900'' ''CONF-7Q2'']"
    and b2: "?b = awaitingReason\<lparr>reason := Some ''annual checkup'',
       bookingId := Some ''APPT-20261103-0900'', step := bookingComplete\<rparr>"
    and b3: "handleSubmit serviceUp ?b ''reschedule APPT-20261103-0900'' =
       \<lparr>written = None, said = [], called = []\<rparr>"
    by code_simp+
  have r1: "step ?r = rescheduleComplete"
    and r3: "handleSubmit serviceUp ?r ''cancel my appointment'' =
       \<lparr>written = None, said = [], called = []\<rparr>"
    by code_simp+
  have c1: "step ?c = cancelComplete"
    and c3: "handleSubmit serviceUp ?c ''book a physical exam'' =
       \<lparr>written = None, said = [], called = []\<rparr>"
    by code_simp+
  have i: "step createInitialState = askIntent"
    by (simp add: createInitialState_def)
  from b2 have "step ?b = bookingComplete" by simp
  with i have b4: "?b \<noteq> createInitialState" by auto
  from r1 i have r2: "?r \<noteq> createInitialState" by auto
  from c1 i have c2: "?c \<noteq> createInitialState" by auto
  from booking_until_reason b1 b2 b4 b3 r1 r2 r3 c1 c2 c3 show ?thesis
    by (intro conjI)
qed

section \<open>The reason of a cancellation\<close>

lemma plainToken_skip: "plainToken ''skip''"
  by (simp add: plainToken_def code_def)

text \<open>
  C7 (as amended). In the cancel flow's reason step, with a booking id at hand, a turn
  that after trimming equals \<open>skip\<close> in any letter case records no reason at all: the
  reason is absent, in the cancel request and in the state, and not a text such as
  \<open>no reason given\<close>. For any other turn the trimmed text is the reason, verbatim.
\<close>

theorem cancel_reason_skip_or_verbatim:
  assumes "step state = askReasonForCancel" and "truthy (bookingId state)"
  shows "called (handleCancelFlow env state userText) =
           [CancelAppointment (the (bookingId state))
              (if spells ''skip'' (trim userText) then None else Some (trim userText))] \<and>
         (cancelResponse env = Some cid \<longrightarrow>
            map_option reason (written (handleCancelFlow env state userText)) =
              Some (if spells ''skip'' (trim userText) then None else Some (trim userText)))"
proof -
  have skip: "toLowerCase (trim userText) = ''skip'' \<longleftrightarrow> spells ''skip'' (trim userText)"
    by (rule toLowerCase_eq_iff [OF plainToken_skip])
  from assms show ?thesis
    unfolding handleCancelFlow_def Let_def skip
    by (auto simp: reply_def split: option.splits)
qed

theorem cancel_reason_skip_or_verbatim_witness:
  "step (run createInitialState untilCancelReason) = askReasonForCancel \<and>
   truthy (bookingId (run createInitialState untilCancelReason)) \<and>
   spells ''skip'' (trim ''Skip'') \<and>
   called (handleCancelFlow serviceUp (run createInitialState untilCancelReason) ''Skip'') =
     [CancelAppointment ''APPT-20261103-0900'' None] \<and>
   called (handleCancelFlow serviceUp (run createInitialState untilCancelReason) ''feeling better'') =
     [CancelAppointment ''APPT-20261103-0900'' (Some ''feeling better'')] \<and>
   cancelResponse serviceUp = Some ''APPT-20261103-0900'' \<and>
   map_option reason
     (written (handleCancelFlow serviceUp (run createInitialState untilCancelReason) ''Skip'')) =
     Some None"
proof -
  let ?c = "run createInitialState untilCancelReason"
  have s: "step ?c = askReasonForCancel" and b: "truthy (bookingId ?c)"
    and i: "the (bookingId ?c) = ''APPT-20261103-0900''"
    by code_simp+
  have k: "spells ''skip'' (trim ''Skip'')" "\<not> spells ''skip'' (trim ''feeling better'')"
    "trim ''feeling better'' = ''feeling better''"
    by code_simp+
  from cancel_reason_skip_or_verbatim [OF s b, of serviceUp "''Skip''"] i k
  have 1: "called (handleCancelFlow serviceUp ?c ''Skip'') =
     [CancelAppointment ''APPT-20261103-0900'' None]"
    by simp
  from cancel_reason_skip_or_verbatim [OF s b, of serviceUp "''feeling better''"] i k
  have 2: "called (handleCancelFlow serviceUp ?c ''feeling better'') =
     [CancelAppointment ''APPT-20261103-0900'' (Some ''feeling better'')]"
    by simp
  have ok: "cancelResponse serviceUp = Some ''APPT-20261103-0900''"
    by (simp add: serviceUp_def)
  from cancel_reason_skip_or_verbatim [OF s b, where env = serviceUp
      and cid = "''APPT-20261103-0900''" and userText = "''Skip''"] ok k
  have 3: "map_option reason (written (handleCancelFlow serviceUp ?c ''Skip'')) = Some None"
    by simp
  from s b k(1) 1 2 ok 3 show ?thesis by (intro conjI)
qed

text \<open>
  The turn \<open>skip\<close> sends the cancel request with an absent reason and leaves the
  state's reason absent.
\<close>

theorem skip_reason_counterexample:
  "step (run createInitialState untilCancelReason) = askReasonForCancel \<and>
   called (handleSubmit serviceUp (run createInitialState untilCancelReason) ''skip'') =
     [CancelAppointment ''APPT-20261103-0900'' None] \<and>
   reason (turn serviceUp (run createInitialState untilCancelReason) ''skip'') = None \<and>
   reason (turn serviceUp (run createInitialState untilCancelReason) ''skip'')
     \<noteq> Some ''no reason given''"
proof -
  let ?c = "run createInitialState untilCancelReason"
  have "step ?c = askReasonForCancel"
    and "called (handleSubmit serviceUp ?c ''skip'') = [CancelAppointment ''APPT-20261103-0900'' None]"
    and n: "reason (turn serviceUp ?c ''skip'') = None"
    by code_simp+
  moreover from n have "reason (turn serviceUp ?c ''skip'') \<noteq> Some ''no reason given''"
    by simp
  ultimately show ?thesis by (intro conjI)
qed

section \<open>Recovery paths of the booking flow\<close>

text \<open>
  C1 (what the code does). When the availability query succeeds with no available slot,
  the agent reports it and the step becomes \<open>askDate\<close>, but the date stays set and the
  stored list is empty. The booking flow chooses its branch by the fields that are unset,
  so the next turn, here another date, is stored as the patient's name, and the flow moves
  on to the email question with no slot selected.
\<close>

theorem no_slots_next_turn_is_taken_as_name:
  "said (handleSubmit serviceFull (run createInitialState [(serviceUp, ''book a physical exam'')])
          ''tomorrow'') = [SayNoSlots] \<and>
   run createInitialState [(serviceUp, ''book a physical exam''), (serviceFull, ''tomorrow'')] =
     \<lparr>intent = Some Book, step = askDate, appointmentType = Some physicalExam,
      date = Some ''2026-11-03'', slots = [], selectedSlot = None, patientName = None,
      patientEmail = None, patientPhone = None, reason = None, bookingId = None\<rparr> \<and>
   handleSubmit serviceUp
     (run createInitialState [(serviceUp, ''book a physical exam''), (serviceFull, ''tomorrow'')])
     ''2026-11-05'' =
     \<lparr>written = Some
        \<lparr>intent = Some Book, step = askEmail, appointmentType = Some physicalExam,
         date = Some ''2026-11-03'', slots = [], selectedSlot = None,
         patientName = Some ''2026-11-05'', patientEmail = None, patientPhone = None,
         reason = None, bookingId = None\<rparr>,
      said = [SayAskEmail], called = []\<rparr>"
  by (intro conjI; code_simp)

text \<open>
  C2 (what the code does). When the book call fails, the agent reports the failure and
  the step becomes \<open>askDate\<close>; the appointment type is kept, and so are the date, the
  selected slot and every other field. With no field unset, the next turn is ignored: no
  state change, no reply, no remote call.
\<close>

theorem failed_book_keeps_selected_slot:
  "run createInitialState untilReason = awaitingReason \<and>
   handleSubmit serviceDown awaitingReason ''annual checkup'' =
     \<lparr>written = Some (awaitingReason\<lparr>reason := Some ''annual checkup'', step := askDate\<rparr>),
      said = [SayBookingFailed],
      called = [BookAppointment physicalExam ''2026-11-03'' slotNine ''Jane Doe''
                  ''jane@example.com'' ''555-0100'' (Some ''annual checkup'')]\<rparr> \<and>
   selectedSlot (turn serviceDown awaitingReason ''annual checkup'') = Some slotNine \<and>
   date (turn serviceDown awaitingReason ''annual checkup'') = Some ''2026-11-03'' \<and>
   handleSubmit serviceUp (turn serviceDown awaitingReason ''annual checkup'') ''2026-11-05'' =
     \<lparr>written = None, said = [], called = []\<rparr>"
proof -
  have "handleSubmit serviceDown awaitingReason ''annual checkup'' =
     \<lparr>written = Some (awaitingReason\<lparr>reason := Some ''annual checkup'', step := askDate\<rparr>),
      said = [SayBookingFailed],
      called = [BookAppointment physicalExam ''2026-11-03'' slotNine ''Jane Doe''
                  ''jane@example.com'' ''555-0100'' (Some ''annual checkup'')]\<rparr>"
    and "selectedSlot (turn serviceDown awaitingReason ''annual checkup'') = Some slotNine"
    and "date (turn serviceDown awaitingReason ''annual checkup'') = Some ''2026-11-03''"
    and "handleSubmit serviceUp (turn serviceDown awaitingReason ''annual checkup'') ''2026-11-05'' =
     \<lparr>written = None, said = [], called = []\<rparr>"
    by code_simp+
  with booking_until_reason show ?thesis by (intro conjI)
qed

text \<open>
  C4 (what the code does). User turns alone reach the confirm-time check with the selected
  slot unset: after a date without a free slot the flow collects name, email, phone and
  reason, and the check then resets the conversation.
\<close>

theorem confirm_guard_reached_by_user_turns:
  "run createInitialState untilReasonNoSlot = awaitingReasonNoSlot \<and>
   selectedSlot awaitingReasonNoSlot = None \<and>
   handleSubmit serviceUp awaitingReasonNoSlot ''annual checkup'' =
     \<lparr>written = Some createInitialState, said = [SayBookingMissingInfo], called = []\<rparr>"
proof -
  have "selectedSlot awaitingReasonNoSlot = None"
    and "handleSubmit serviceUp awaitingReasonNoSlot ''annual checkup'' =
     \<lparr>written = Some createInitialState, said = [SayBookingMissingInfo], called = []\<rparr>"
    by code_simp+
  with no_slot_until_reason show ?thesis by (intro conjI)
qed

end
